theory Spec2Isabelle
  imports Main
begin

section \<open>JavaScript string and array primitives used by summarize.js\<close>

text \<open>
  JavaScript strings are modelled as \<open>string\<close> (lists of characters); \<open>length\<close> stands
  for \<open>.length\<close>. The primitives below are the library calls the summarizer makes on
  strings and arrays: \<open>split("\n")\<close>, \<open>join(sep)\<close>, \<open>slice\<close>, \<open>startsWith\<close>,
  \<open>includes\<close>, \<open>trim\<close> and \<open>replace\<close> with a string pattern.
\<close>

definition nl :: string where
  "nl = [CHR 0x0A]"

definition nl2 :: string where
  "nl2 = [CHR 0x0A, CHR 0x0A]"

text \<open>\<open>s.split("\n")\<close>: always at least one element; the empty string gives \<open>[""]\<close>.\<close>

fun js_split_nl :: "string \<Rightarrow> string list" where
  "js_split_nl [] = [[]]"
| "js_split_nl (c # cs) =
     (if c = CHR 0x0A then [] # js_split_nl cs
      else (case js_split_nl cs of
              [] \<Rightarrow> [[c]]
            | l # ls \<Rightarrow> (c # l) # ls))"

text \<open>\<open>xs.join(sep)\<close> on an array of strings.\<close>

fun js_join :: "string \<Rightarrow> string list \<Rightarrow> string" where
  "js_join sep [] = []"
| "js_join sep [x] = x"
| "js_join sep (x # y # ys) = x @ sep @ js_join sep (y # ys)"

text \<open>
  \<open>xs.slice(a, b)\<close> and \<open>xs.slice(a)\<close> for non-negative indices: the elements at the
  positions \<open>a \<le> i < min b (length xs)\<close>; empty when \<open>b \<le> a\<close> or \<open>a\<close> is past the end.
\<close>

definition js_slice :: "'a list \<Rightarrow> nat \<Rightarrow> nat \<Rightarrow> 'a list" where
  "js_slice xs a b = take (b - a) (drop a xs)"

definition js_slice_from :: "'a list \<Rightarrow> nat \<Rightarrow> 'a list" where
  "js_slice_from xs a = drop a xs"

definition startsWith :: "string \<Rightarrow> string \<Rightarrow> bool" where
  "startsWith s p = (take (length p) s = p)"

text \<open>
  The first occurrence of a pattern in a string, as the text before it and the text after
  it (\<open>indexOf\<close>, the search behind \<open>includes\<close> and \<open>replace\<close>).
\<close>

fun find_first :: "string \<Rightarrow> string \<Rightarrow> (string \<times> string) option" where
  "find_first pat [] = (if pat = [] then Some ([], []) else None)"
| "find_first pat (c # cs) =
     (if startsWith (c # cs) pat then Some ([], drop (length pat) (c # cs))
      else (case find_first pat cs of
              None \<Rightarrow> None
            | Some (pre, post) \<Rightarrow> Some (c # pre, post)))"

definition js_includes :: "string \<Rightarrow> string \<Rightarrow> bool" where
  "js_includes s pat = (find_first pat s \<noteq> None)"

text \<open>
  The replacement text of \<open>String.prototype.replace\<close> (GetSubstitution) for a string
  pattern, which has no capture groups: \<open>$$\<close> is a dollar sign, \<open>$&\<close> the matched text,
  a dollar sign and a backquote the text before the match, a dollar sign and a
  single quote the text after it; every other character,
  and a dollar sign followed by anything else, is copied.
\<close>

fun get_substitution :: "string \<Rightarrow> string \<Rightarrow> string \<Rightarrow> string \<Rightarrow> string" where
  "get_substitution matched pre post [] = []"
| "get_substitution matched pre post [c] = [c]"
| "get_substitution matched pre post (c # d # r) =
     (if c = CHR 0x24 then
        (if d = CHR 0x24 then CHR 0x24 # get_substitution matched pre post r
         else if d = CHR 0x26 then matched @ get_substitution matched pre post r
         else if d = CHR 0x60 then pre @ get_substitution matched pre post r
         else if d = CHR 0x27 then post @ get_substitution matched pre post r
         else c # get_substitution matched pre post (d # r))
      else c # get_substitution matched pre post (d # r))"

text \<open>\<open>s.replace(pat, repl)\<close> with a string pattern: only the first occurrence is replaced.\<close>

definition js_replace :: "string \<Rightarrow> string \<Rightarrow> string \<Rightarrow> string" where
  "js_replace pat repl s =
     (case find_first pat s of
        None \<Rightarrow> s
      | Some (pre, post) \<Rightarrow> pre @ get_substitution pat pre post repl @ post)"

text \<open>
  \<open>s.trim()\<close>: white space and line terminators are removed at both ends (of the
  characters a \<open>char\<close> can hold: tab, line feed, vertical tab, form feed, carriage
  return, space and the no-break space).
\<close>

definition js_whitespace :: "char \<Rightarrow> bool" where
  "js_whitespace c = (c \<in> set [CHR 0x09, CHR 0x0A, CHR 0x0B, CHR 0x0C, CHR 0x0D, CHR 0x20, CHR 0xA0])"

definition trim :: "string \<Rightarrow> string" where
  "trim s = rev (dropWhile js_whitespace (rev (dropWhile js_whitespace s)))"

section \<open>Splitter: splitMonthContent and splitMonthContentIntoFour\<close>

text \<open>
  The scan both splitters run:
  \<^verbatim>\<open>for (let i = start; i < limit; i++) { if (lines[i].startsWith("## ")) { splitIndex = i; break; } }\<close>
  with \<open>splitIndex\<close> initialised to the target index \<open>dflt\<close>.
\<close>

function scanBoundary :: "string list \<Rightarrow> nat \<Rightarrow> nat \<Rightarrow> nat \<Rightarrow> nat" where
  "scanBoundary lines i limit dflt =
     (if i < limit then
        (if startsWith (lines ! i) ''## '' then i
         else scanBoundary lines (Suc i) limit dflt)
      else dflt)"
  by pat_completeness auto
termination
  by (relation "measure (\<lambda>(lines, i, limit, dflt). limit - i)") auto

declare scanBoundary.simps [simp del]

text \<open>The split index of \<open>splitMonthContent\<close> (its local \<open>splitIndex\<close>).\<close>

definition splitIndex :: "string \<Rightarrow> nat" where
  "splitIndex content =
     (let lines = js_split_nl content;
          midPoint = length lines div 2
      in scanBoundary lines midPoint (length lines) midPoint)"

definition splitMonthContent :: "string \<Rightarrow> string \<times> string" where
  "splitMonthContent content =
     (let lines = js_split_nl content;
          firstHalf = js_join nl (js_slice lines 0 (splitIndex content));
          secondHalf = js_join nl (js_slice_from lines (splitIndex content))
      in (firstHalf, secondHalf))"

text \<open>The three split points of \<open>splitMonthContentIntoFour\<close> (its array \<open>splitPoints\<close>).\<close>

definition splitPoints :: "string \<Rightarrow> nat list" where
  "splitPoints content =
     (let lines = js_split_nl content;
          quarterSize = length lines div 4
      in map (\<lambda>quarter.
                let targetIndex = quarter * quarterSize
                in scanBoundary lines targetIndex
                     (min (targetIndex + quarterSize) (length lines)) targetIndex)
             [1, 2, 3])"

definition splitMonthContentIntoFour :: "string \<Rightarrow> string list" where
  "splitMonthContentIntoFour content =
     (let lines = js_split_nl content;
          sp = splitPoints content
      in [js_join nl (js_slice lines 0 (sp ! 0)),
          js_join nl (js_slice lines (sp ! 0) (sp ! 1)),
          js_join nl (js_slice lines (sp ! 1) (sp ! 2)),
          js_join nl (js_slice_from lines (sp ! 2))])"

text \<open>
  What the scan finds, as two executable predicates: \<open>k\<close> is the first line at or after
  \<open>start\<close> and before \<open>limit\<close> that starts with the level-2 heading token, or there is
  no such line.
\<close>

definition first_boundary_at :: "string list \<Rightarrow> nat \<Rightarrow> nat \<Rightarrow> nat \<Rightarrow> bool" where
  "first_boundary_at lines start limit k =
     (start \<le> k \<and> k < limit \<and> startsWith (lines ! k) ''## '' \<and>
      list_all (\<lambda>j. \<not> startsWith (lines ! j) ''## '') [start..<k])"

definition no_boundary :: "string list \<Rightarrow> nat \<Rightarrow> nat \<Rightarrow> bool" where
  "no_boundary lines start limit =
     list_all (\<lambda>j. \<not> startsWith (lines ! j) ''## '') [start..<limit]"

section \<open>The world of the summarizer: files, cache, clock and the completion service\<close>

text \<open>
  A thrown JavaScript \<open>Error\<close>; the handlers of summarize.js read only its \<open>message\<close>.
\<close>

datatype jserror = JsError (message: string)

text \<open>
  A cache record as \<open>saveToCache\<close> and \<open>generateOneSentenceSummary\<close> write it, after
  \<open>JSON.parse\<close>: the keys \<open>timestamp\<close>, \<open>monthFile\<close>, \<open>summary\<close>,
  \<open>oneSentenceSummary\<close> and \<open>model\<close>. The file may have been written by anything,
  so a key can be missing. \<open>cd_timestamp\<close> is the number that \<open>cacheData.timestamp\<close>
  converts to in \<open>Date.now() - cacheData.timestamp\<close>: \<open>None\<close> when it converts to NaN
  (the key is missing, or holds text that is not a number). A full-summary record has
  no \<open>oneSentenceSummary\<close> and a digest record has no \<open>summary\<close>: a text key that is
  missing (or null) reads as \<open>None\<close>.
\<close>

record cacheData =
  cd_timestamp :: "int option"
  cd_monthFile :: string
  cd_summary :: "string option"
  cd_oneSentenceSummary :: "string option"
  cd_model :: string

text \<open>
  JavaScript numbers that may be NaN (\<open>None\<close>): the subtraction of a possibly-NaN
  number, and the comparisons \<open>a > b\<close> and \<open>a <= b\<close>, both false when \<open>a\<close> is NaN.
\<close>

definition js_minus :: "int \<Rightarrow> int option \<Rightarrow> int option" where
  "js_minus a b = (case b of None \<Rightarrow> None | Some y \<Rightarrow> Some (a - y))"

definition js_gt :: "int option \<Rightarrow> int \<Rightarrow> bool" where
  "js_gt a b = (case a of None \<Rightarrow> False | Some x \<Rightarrow> x > b)"

definition js_le :: "int option \<Rightarrow> int \<Rightarrow> bool" where
  "js_le a b = (case a of None \<Rightarrow> False | Some x \<Rightarrow> x \<le> b)"

text \<open>
  What a cache file holds: \<open>Corrupted\<close> when \<open>JSON.parse\<close> of its content throws,
  \<open>Parsed d\<close> when it yields the record \<open>d\<close>.
\<close>

datatype cacheFile = Corrupted | Parsed cacheData

text \<open>
  The outcome of one \<open>openai.chat.completions.create\<close> call: the promise rejects with
  an error of the given message, or resolves with a completion whose
  \<open>choices[0].message.content\<close> is the given text (\<open>None\<close> when it is null, so that
  \<open>.trim()\<close> on it throws a TypeError).
\<close>

datatype completion = Throws string | Content "string option"

text \<open>A chat message is a role and a content; a request is the list \<open>messages\<close>.\<close>

type_synonym chat_message = "string \<times> string"
type_synonym request = "chat_message list"

text \<open>
  What the program reads and does not change: \<open>__dirname\<close>, the text files (the monthly
  documents and \<open>prompt.md\<close>), the month name the platform's \<open>Date\<close> formats for a file
  name, the completion service (its answer may depend on every earlier request) and the
  clock (the value of the n-th \<open>Date.now()\<close>, in milliseconds).
\<close>

record env =
  dirname :: string
  textFiles :: "string \<rightharpoonup> string"
  monthNameOf :: "string \<Rightarrow> string"
  respond :: "request list \<Rightarrow> request \<Rightarrow> completion"
  clock :: "nat \<Rightarrow> int"

text \<open>
  What the program changes: the files of the cache directory, the requests sent to the
  completion service so far, and the number of \<open>Date.now()\<close> calls made. Writing a
  cache file is taken to succeed (\<open>getCacheDir\<close> creates the directory when it is
  missing); reading a text file that does not exist throws.
\<close>

record world =
  cacheFiles :: "string \<rightharpoonup> cacheFile"
  calls :: "request list"
  ticks :: nat

definition path_join :: "string \<Rightarrow> string \<Rightarrow> string" where
  "path_join dir name = dir @ ''/'' @ name"

definition enoent :: "string \<Rightarrow> jserror" where
  "enoent p = JsError (''ENOENT: no such file or directory, open '' @ [CHR 0x27] @ p @ [CHR 0x27])"

definition Date_now :: "env \<Rightarrow> world \<Rightarrow> int \<times> world" where
  "Date_now e w = (clock e (ticks w), w\<lparr>ticks := Suc (ticks w)\<rparr>)"

definition getSystemPrompt :: "env \<Rightarrow> jserror + string" where
  "getSystemPrompt e =
     (let promptPath = path_join (dirname e) ''prompt.md''
      in case textFiles e promptPath of
           None \<Rightarrow> Inl (enoent promptPath)
         | Some p \<Rightarrow> Inr p)"

definition getCacheDir :: "env \<Rightarrow> string" where
  "getCacheDir e = path_join (dirname e) ''cache''"

definition getCacheFilePath :: "env \<Rightarrow> string \<Rightarrow> string" where
  "getCacheFilePath e monthFile =
     path_join (getCacheDir e) (js_replace ''.md'' ''.json'' monthFile)"

definition maxAge :: int where
  "maxAge = 7 * 24 * 60 * 60 * 1000"

section \<open>CacheStore: getCachedSummary and saveToCache\<close>

definition getCachedSummary :: "env \<Rightarrow> string \<Rightarrow> world \<Rightarrow> string option \<times> world" where
  "getCachedSummary e monthFile w =
     (case cacheFiles w (getCacheFilePath e monthFile) of
        None \<Rightarrow> (None, w)
      | Some Corrupted \<Rightarrow> (None, w)
      | Some (Parsed cacheData) \<Rightarrow>
          (let (now, w1) = Date_now e w;
               cacheAge = js_minus now (cd_timestamp cacheData)
           in if js_gt cacheAge maxAge then (None, w1)
              else (case cd_summary cacheData of
                      None \<Rightarrow> (None, w1)
                    | Some s \<Rightarrow>
                        if s = [] \<or> length s < 10 then (None, w1)
                        else (Some s, w1))))"

definition saveToCache :: "env \<Rightarrow> string \<Rightarrow> string \<Rightarrow> world \<Rightarrow> world" where
  "saveToCache e monthFile summaryText w =
     (let cacheFilePath = getCacheFilePath e monthFile;
          (now, w1) = Date_now e w;
          cacheData = \<lparr>cd_timestamp = Some now, cd_monthFile = monthFile,
                       cd_summary = Some summaryText, cd_oneSentenceSummary = None,
                       cd_model = ''gpt-5-mini''\<rparr>
      in w1\<lparr>cacheFiles := (cacheFiles w1)(cacheFilePath \<mapsto> Parsed cacheData)\<rparr>)"

section \<open>SummarizerClient: the calls to the completion service\<close>

text \<open>
  \<open>await openai.chat.completions.create({model: "gpt-5-mini", messages})\<close>: the request is
  recorded, and the call throws or returns the completion's content.
\<close>

definition create :: "env \<Rightarrow> request \<Rightarrow> world \<Rightarrow> (jserror + string option) \<times> world" where
  "create e req w =
     (let w1 = w\<lparr>calls := calls w @ [req]\<rparr>
      in case respond e (calls w) req of
           Throws m \<Rightarrow> (Inl (JsError m), w1)
         | Content c \<Rightarrow> (Inr c, w1))"

text \<open>\<open>completion.choices[0].message.content.trim()\<close>.\<close>

definition content_trim :: "string option \<Rightarrow> jserror + string" where
  "content_trim c =
     (case c of
        None \<Rightarrow> Inl (JsError (''Cannot read properties of null (reading '' @ [CHR 0x27] @ ''trim'' @ [CHR 0x27] @ '')''))
      | Some s \<Rightarrow> Inr (trim s))"

text \<open>
  The messages of a summarization call: the system prompt read from \<open>prompt.md\<close> and
  the user content. \<open>getSystemPrompt()\<close> is evaluated while the request is built, so a
  missing \<open>prompt.md\<close> throws before any request is sent.
\<close>

definition summaryRequest :: "string \<Rightarrow> string \<Rightarrow> request" where
  "summaryRequest systemPrompt userContent =
     [(''system'', systemPrompt), (''user'', userContent)]"

definition createSummary :: "env \<Rightarrow> string \<Rightarrow> world \<Rightarrow> (jserror + string option) \<times> world" where
  "createSummary e userContent w =
     (case getSystemPrompt e of
        Inl err \<Rightarrow> (Inl err, w)
      | Inr systemPrompt \<Rightarrow> create e (summaryRequest systemPrompt userContent) w)"

text \<open>The error classification of the handlers: size-limit wording in the message.\<close>

definition isTokenLimit :: "string \<Rightarrow> bool" where
  "isTokenLimit msg =
     (js_includes msg ''Input tokens exceed'' \<or> js_includes msg ''token limit'')"

text \<open>An element of an array inside a template literal; a missing one prints as undefined.\<close>

definition element_text :: "string list \<Rightarrow> nat \<Rightarrow> string" where
  "element_text xs i = (if i < length xs then xs ! i else ''undefined'')"

definition combineFourRequest :: "string list \<Rightarrow> string \<Rightarrow> request" where
  "combineFourRequest summaries monthName =
     [(''system'',
       ''You are a helpful assistant that combines four summaries of the same month into one cohesive summary. Merge the key points, remove duplicates, and create a unified narrative that flows well chronologically.''),
      (''user'',
       ''Please combine these four summaries for '' @ monthName @
       '' into one comprehensive summary:'' @ nl2 @
       ''First quarter summary:'' @ nl @ element_text summaries 0 @ nl2 @
       ''Second quarter summary:'' @ nl @ element_text summaries 1 @ nl2 @
       ''Third quarter summary:'' @ nl @ element_text summaries 2 @ nl2 @
       ''Fourth quarter summary:'' @ nl @ element_text summaries 3)]"

definition combineFourSummaries :: "env \<Rightarrow> string list \<Rightarrow> string \<Rightarrow> world \<Rightarrow> string \<times> world" where
  "combineFourSummaries e summaries monthName w =
     (case create e (combineFourRequest summaries monthName) w of
        (Inl err, w1) \<Rightarrow> (js_join nl2 summaries, w1)
      | (Inr c, w1) \<Rightarrow>
          (case content_trim c of
             Inl err \<Rightarrow> (js_join nl2 summaries, w1)
           | Inr combined \<Rightarrow> (combined, w1)))"

section \<open>Digest: generateOneSentenceSummary\<close>

definition oneSentenceRequest :: "string \<Rightarrow> request" where
  "oneSentenceRequest fullSummary =
     [(''system'',
       ''You are a helpful assistant that creates concise one-sentence summaries. Create a single, clear sentence that captures the most important events, decisions, or themes from the given month'' @ [CHR 0x27] @ ''s summary. Focus on the most significant developments or outcomes.''),
      (''user'',
       ''Please create a one-sentence summary of this month'' @ [CHR 0x27] @ ''s activities:'' @ nl2 @ fullSummary)]"

definition oneSentenceCachePath :: "env \<Rightarrow> string \<Rightarrow> string" where
  "oneSentenceCachePath e monthFile =
     js_replace ''.json'' ''-onesentence.json'' (getCacheFilePath e monthFile)"

text \<open>
  The cache check of \<open>generateOneSentenceSummary\<close>: the cached digest when the file
  exists, parses, is at most \<open>maxAge\<close> old and its \<open>oneSentenceSummary\<close> is truthy
  (a non-empty string).
\<close>

definition cachedOneSentence :: "env \<Rightarrow> string \<Rightarrow> world \<Rightarrow> string option \<times> world" where
  "cachedOneSentence e monthFile w =
     (case cacheFiles w (oneSentenceCachePath e monthFile) of
        None \<Rightarrow> (None, w)
      | Some Corrupted \<Rightarrow> (None, w)
      | Some (Parsed cacheData) \<Rightarrow>
          (let (now, w1) = Date_now e w;
               cacheAge = js_minus now (cd_timestamp cacheData)
           in if js_le cacheAge maxAge \<and> cd_oneSentenceSummary cacheData \<noteq> None \<and>
                 cd_oneSentenceSummary cacheData \<noteq> Some []
              then (cd_oneSentenceSummary cacheData, w1)
              else (None, w1)))"

definition generateOneSentenceSummary :: "env \<Rightarrow> string \<Rightarrow> string \<Rightarrow> world \<Rightarrow> string \<times> world" where
  "generateOneSentenceSummary e monthFile fullSummary w =
     (case cachedOneSentence e monthFile w of
        (Some cached, w1) \<Rightarrow> (cached, w1)
      | (None, w1) \<Rightarrow>
          (case create e (oneSentenceRequest fullSummary) w1 of
             (Inl err, w2) \<Rightarrow> (''Unable to generate summary.'', w2)
           | (Inr c, w2) \<Rightarrow>
               (case content_trim c of
                  Inl err \<Rightarrow> (''Unable to generate summary.'', w2)
                | Inr oneSentenceSummary \<Rightarrow>
                    (let (now, w3) = Date_now e w2;
                         cacheData = \<lparr>cd_timestamp = Some now, cd_monthFile = monthFile,
                                      cd_summary = None,
                                      cd_oneSentenceSummary = Some oneSentenceSummary,
                                      cd_model = ''gpt-5-mini''\<rparr>
                     in (oneSentenceSummary,
                         w3\<lparr>cacheFiles := (cacheFiles w3)(oneSentenceCachePath e monthFile \<mapsto> Parsed cacheData)\<rparr>)))))"

section \<open>RecursiveSummarizer: generateMonthSummary\<close>

definition heading :: "string \<Rightarrow> string" where
  "heading monthName = ''## '' @ monthName @ nl2"

text \<open>
  \<open>s.replace(`## ${monthName}\n\n`, `## ${monthName}\n\n**tl;dr:** ${oneSentenceSummary}\n\n`)\<close>
\<close>

definition withTldr :: "string \<Rightarrow> string \<Rightarrow> string \<Rightarrow> string" where
  "withTldr monthName oneSentenceSummary s =
     js_replace (heading monthName)
       (heading monthName @ ''**tl;dr:** '' @ oneSentenceSummary @ nl2) s"

definition errorBlock :: "string \<Rightarrow> jserror \<Rightarrow> string" where
  "errorBlock monthName err =
     heading monthName @ ''Error generating summary: '' @ message err"

definition placeholderText :: "string \<Rightarrow> string" where
  "placeholderText monthName =
     heading monthName @ ''No significant activity recorded for this month.''"

text \<open>
  The tail shared by the three successful paths: the digest is generated from the
  formatted summary, spliced in after the heading, and the summary without the digest
  is saved to the cache.
\<close>

definition finishSummary :: "env \<Rightarrow> string \<Rightarrow> string \<Rightarrow> string \<Rightarrow> world \<Rightarrow> string \<times> world" where
  "finishSummary e monthFile monthName formattedSummary w =
     (let (oneSentenceSummary, w1) = generateOneSentenceSummary e monthFile formattedSummary w;
          summaryWithTldr = withTldr monthName oneSentenceSummary formattedSummary;
          w2 = saveToCache e monthFile formattedSummary w1
      in (summaryWithTldr, w2))"

text \<open>The body of the outer \<open>try\<close>: the whole document in one call.\<close>

definition wholeAttempt :: "env \<Rightarrow> string \<Rightarrow> string \<Rightarrow> string \<Rightarrow> world \<Rightarrow> (jserror + string) \<times> world" where
  "wholeAttempt e monthFile monthName content w =
     (case createSummary e (''# '' @ monthName @ nl2 @ content) w of
        (Inl err, w1) \<Rightarrow> (Inl err, w1)
      | (Inr c, w1) \<Rightarrow>
          (case content_trim c of
             Inl err \<Rightarrow> (Inl err, w1)
           | Inr summaryText \<Rightarrow>
               if summaryText = [] \<or> length summaryText < 10 then
                 (let placeholder = placeholderText monthName
                  in (Inr placeholder, saveToCache e monthFile placeholder w1))
               else
                 (let formattedSummary = heading monthName @ summaryText;
                      (summaryWithTldr, w2) = finishSummary e monthFile monthName formattedSummary w1
                  in (Inr summaryWithTldr, w2))))"

text \<open>
  The body of the second \<open>try\<close>: both halves are requested, then both contents are
  trimmed, and the two summaries are concatenated.
\<close>

definition twoPartAttempt :: "env \<Rightarrow> string \<Rightarrow> string \<Rightarrow> string \<Rightarrow> world \<Rightarrow> (jserror + string) \<times> world" where
  "twoPartAttempt e monthFile monthName content w =
     (let (firstHalf, secondHalf) = splitMonthContent content
      in case createSummary e (''# '' @ monthName @ '' (First Half)'' @ nl2 @ firstHalf) w of
           (Inl err, w1) \<Rightarrow> (Inl err, w1)
         | (Inr firstCompletion, w1) \<Rightarrow>
             (case createSummary e (''# '' @ monthName @ '' (Second Half)'' @ nl2 @ secondHalf) w1 of
                (Inl err, w2) \<Rightarrow> (Inl err, w2)
              | (Inr secondCompletion, w2) \<Rightarrow>
                  (case content_trim firstCompletion of
                     Inl err \<Rightarrow> (Inl err, w2)
                   | Inr firstSummary \<Rightarrow>
                       (case content_trim secondCompletion of
                          Inl err \<Rightarrow> (Inl err, w2)
                        | Inr secondSummary \<Rightarrow>
                            (let combinedSummary = firstSummary @ secondSummary;
                                 formattedSummary = heading monthName @ combinedSummary;
                                 (summaryWithTldr, w3) = finishSummary e monthFile monthName formattedSummary w2
                             in (Inr summaryWithTldr, w3))))))"

definition quarterNames :: "string list" where
  "quarterNames = [''first'', ''second'', ''third'', ''fourth'']"

text \<open>\<open>name.charAt(0).toUpperCase() + name.slice(1)\<close>; the letters a to z have an upper case.\<close>

definition toUpperCase_char :: "char \<Rightarrow> char" where
  "toUpperCase_char c =
     (case map_of (zip ''abcdefghijklmnopqrstuvwxyz'' ''ABCDEFGHIJKLMNOPQRSTUVWXYZ'') c of
        None \<Rightarrow> c
      | Some u \<Rightarrow> u)"

definition capitalize :: "string \<Rightarrow> string" where
  "capitalize name =
     (case name of
        [] \<Rightarrow> []
      | c # cs \<Rightarrow> toUpperCase_char c # cs)"

text \<open>
  The loop over the quarters: each quarter is requested and its content trimmed before
  the next one is requested; the first failure leaves the loop.
\<close>

fun summarizeQuarters :: "env \<Rightarrow> string \<Rightarrow> (string \<times> string) list \<Rightarrow> string list \<Rightarrow> world \<Rightarrow> (jserror + string list) \<times> world" where
  "summarizeQuarters e monthName [] quarterSummaries w = (Inr quarterSummaries, w)"
| "summarizeQuarters e monthName ((quarterName, quarter) # rest) quarterSummaries w =
     (case createSummary e (''# '' @ monthName @ '' ('' @ capitalize quarterName @ '' Quarter)'' @ nl2 @ quarter) w of
        (Inl err, w1) \<Rightarrow> (Inl err, w1)
      | (Inr quarterCompletion, w1) \<Rightarrow>
          (case content_trim quarterCompletion of
             Inl err \<Rightarrow> (Inl err, w1)
           | Inr quarterSummary \<Rightarrow>
               summarizeQuarters e monthName rest (quarterSummaries @ [quarterSummary]) w1))"

text \<open>The body of the third \<open>try\<close>: four quarters of the whole document.\<close>

definition fourPartAttempt :: "env \<Rightarrow> string \<Rightarrow> string \<Rightarrow> string \<Rightarrow> world \<Rightarrow> (jserror + string) \<times> world" where
  "fourPartAttempt e monthFile monthName content w =
     (let quarters = splitMonthContentIntoFour content
      in case summarizeQuarters e monthName (zip quarterNames quarters) [] w of
           (Inl err, w1) \<Rightarrow> (Inl err, w1)
         | (Inr quarterSummaries, w1) \<Rightarrow>
             (let (combinedSummary, w2) = combineFourSummaries e quarterSummaries monthName w1;
                  formattedSummary = heading monthName @ combinedSummary;
                  (summaryWithTldr, w3) = finishSummary e monthFile monthName formattedSummary w2
              in (Inr summaryWithTldr, w3)))"

text \<open>
  \<open>generateMonthSummary(monthFile, outputDir)\<close>. The result is \<open>Inl\<close> when an exception
  leaves the function and \<open>Inr\<close> the returned text otherwise.
\<close>

definition generateMonthSummary :: "env \<Rightarrow> string \<Rightarrow> string \<Rightarrow> world \<Rightarrow> (jserror + string) \<times> world" where
  "generateMonthSummary e monthFile outputDir w =
     (let filePath = path_join outputDir monthFile
      in case textFiles e filePath of
           None \<Rightarrow> (Inl (enoent filePath), w)
         | Some content \<Rightarrow>
             (let monthName = monthNameOf e monthFile
              in case getCachedSummary e monthFile w of
                   (Some cachedSummary, w1) \<Rightarrow>
                     (let (oneSentenceSummary, w2) = generateOneSentenceSummary e monthFile cachedSummary w1
                      in (Inr (withTldr monthName oneSentenceSummary cachedSummary), w2))
                 | (None, w1) \<Rightarrow>
                     (case wholeAttempt e monthFile monthName content w1 of
                        (Inr summaryText, w2) \<Rightarrow> (Inr summaryText, w2)
                      | (Inl err, w2) \<Rightarrow>
                          if isTokenLimit (message err) then
                            (case twoPartAttempt e monthFile monthName content w2 of
                               (Inr summaryText, w3) \<Rightarrow> (Inr summaryText, w3)
                             | (Inl splitError, w3) \<Rightarrow>
                                 if isTokenLimit (message splitError) then
                                   (case fourPartAttempt e monthFile monthName content w3 of
                                      (Inr summaryText, w4) \<Rightarrow> (Inr summaryText, w4)
                                    | (Inl fourPartError, w4) \<Rightarrow>
                                        (Inr (errorBlock monthName fourPartError), w4))
                                 else (Inr (errorBlock monthName splitError), w3))
                          else (Inr (errorBlock monthName err), w2))))"

section \<open>Specification predicates and example inputs\<close>

text \<open>
  An installation for the examples: the program lives in \<open>/app\<close>, \<open>prompt.md\<close> and one
  monthly document exist, the month name of every file is February 2021, the n-th
  \<open>Date.now()\<close> returns \<open>1000 * n\<close>, and the completion service answers the n-th request
  with the n-th entry of a script (and refuses the connection once the script is used up).
\<close>

definition script_env :: "completion list \<Rightarrow> env" where
  "script_env script =
     \<lparr>dirname = ''/app'',
      textFiles = [''/app/prompt.md'' \<mapsto> ''Summarize.'',
                   ''/app/output/2021-02.md'' \<mapsto> ''## Feb 1\<newline>hello\<newline>## Feb 2\<newline>bye''],
      monthNameOf = (\<lambda>monthFile. ''February 2021''),
      respond = (\<lambda>history req.
                   if length history < length script then script ! length history
                   else Throws ''connection refused''),
      clock = (\<lambda>n. 1000 * int n)\<rparr>"

definition empty_world :: world where
  "empty_world = \<lparr>cacheFiles = Map.empty, calls = [], ticks = 0\<rparr>"

text \<open>A world whose cache directory holds the given files and nothing else.\<close>

definition cache_world :: "(string \<times> cacheFile) list \<Rightarrow> nat \<Rightarrow> world" where
  "cache_world files n = \<lparr>cacheFiles = map_of files, calls = [], ticks = n\<rparr>"

definition summary_record :: "int \<Rightarrow> string \<Rightarrow> cacheData" where
  "summary_record t s =
     \<lparr>cd_timestamp = Some t, cd_monthFile = ''2021-02.md'', cd_summary = Some s,
      cd_oneSentenceSummary = None, cd_model = ''gpt-5-mini''\<rparr>"

text \<open>Records whose \<open>timestamp\<close> key is missing.\<close>

definition unstamped_summary_record :: "string \<Rightarrow> cacheData" where
  "unstamped_summary_record s =
     \<lparr>cd_timestamp = None, cd_monthFile = ''2021-02.md'', cd_summary = Some s,
      cd_oneSentenceSummary = None, cd_model = ''gpt-5-mini''\<rparr>"

definition unstamped_digest_record :: "string \<Rightarrow> cacheData" where
  "unstamped_digest_record s =
     \<lparr>cd_timestamp = None, cd_monthFile = ''2021-02.md'', cd_summary = None,
      cd_oneSentenceSummary = Some s, cd_model = ''gpt-5-mini''\<rparr>"


text \<open>
  The digest cache of a month holds a reusable digest \<open>s\<close>: the file exists, parses, has
  a numeric timestamp at most \<open>maxAge\<close> before the lookup and its \<open>oneSentenceSummary\<close>
  is the non-empty \<open>s\<close>.
\<close>

definition digest_valid :: "env \<Rightarrow> string \<Rightarrow> world \<Rightarrow> string \<Rightarrow> bool" where
  "digest_valid e monthFile w s =
     (case cacheFiles w (oneSentenceCachePath e monthFile) of
        Some (Parsed d) \<Rightarrow>
          (case cd_timestamp d of
             None \<Rightarrow> False
           | Some t \<Rightarrow> clock e (ticks w) - t \<le> maxAge) \<and>
          cd_oneSentenceSummary d = Some s \<and> s \<noteq> []
      | _ \<Rightarrow> False)"

text \<open>What a reader of a cache file obtains: the parsed record, or nothing.\<close>

definition readable :: "cacheFile option \<Rightarrow> cacheData option" where
  "readable f = (case f of Some (Parsed d) \<Rightarrow> Some d | _ \<Rightarrow> None)"

text \<open>
  Two worlds that differ at most in that a cache file is corrupted in one and missing
  (or corrupted) in the other.
\<close>

definition same_up_to_corruption :: "world \<Rightarrow> world \<Rightarrow> bool" where
  "same_up_to_corruption w w' =
     (calls w = calls w' \<and> ticks w = ticks w' \<and>
      (\<forall>p. readable (cacheFiles w p) = readable (cacheFiles w' p)))"

text \<open>
  Two outcomes of a step agree: the same value, in worlds that differ at most in
  corrupted cache files.
\<close>

definition sim_out :: "('a \<times> world) \<Rightarrow> ('a \<times> world) \<Rightarrow> bool" where
  "sim_out x y = (fst x = fst y \<and> same_up_to_corruption (snd x) (snd y))"

text \<open>
  The month's cache entry is well-formed: when the cache file parses and holds a
  summary, the summary begins with the month's heading, as every summary that
  \<open>saveToCache\<close> is given by \<open>generateMonthSummary\<close> does.
\<close>

definition cache_wellformed :: "env \<Rightarrow> string \<Rightarrow> world \<Rightarrow> bool" where
  "cache_wellformed e monthFile w =
     (case readable (cacheFiles w (getCacheFilePath e monthFile)) of
        None \<Rightarrow> True
      | Some d \<Rightarrow>
          (case cd_summary d of
             None \<Rightarrow> True
           | Some s \<Rightarrow> startsWith s (heading (monthNameOf e monthFile))))"

text \<open>
  The three shapes of a returned text block: the no-activity placeholder, an inline
  error message under the heading, or a summary whose heading is followed by the
  tl;dr line.
\<close>

definition output_contract :: "string \<Rightarrow> string \<Rightarrow> bool" where
  "output_contract monthName t =
     (t = placeholderText monthName \<or>
      startsWith t (heading monthName @ ''Error generating summary: '') \<or>
      startsWith t (heading monthName @ ''**tl;dr:** ''))"

text \<open>
  An outcome of a step keeps the cache well-formed, and its value satisfies \<open>P\<close>.
\<close>

definition keeps :: "env \<Rightarrow> string \<Rightarrow> ('a \<Rightarrow> bool) \<Rightarrow> 'a \<times> world \<Rightarrow> bool" where
  "keeps e monthFile P x = (P (fst x) \<and> cache_wellformed e monthFile (snd x))"

text \<open>
  A result that is a returned text block of one of the three shapes (and no exception),
  and a result that is such a block or an exception for the enclosing handler.
\<close>

definition returns_block :: "string \<Rightarrow> jserror + string \<Rightarrow> bool" where
  "returns_block monthName r = (case r of Inl err \<Rightarrow> False | Inr t \<Rightarrow> output_contract monthName t)"

definition block_or_throws :: "string \<Rightarrow> jserror + string \<Rightarrow> bool" where
  "block_or_throws monthName r = (case r of Inl err \<Rightarrow> True | Inr t \<Rightarrow> output_contract monthName t)"

section \<open>Properties of the splitters\<close>

lemma js_split_nl_nonempty: "js_split_nl s \<noteq> []"
  by (induction s) (auto split: list.splits)

lemma length_js_split_nl: "0 < length (js_split_nl s)"
  using js_split_nl_nonempty [of s] by simp

lemma scanBoundary_range:
  "scanBoundary lines i limit dflt = dflt \<or>
   (i \<le> scanBoundary lines i limit dflt \<and> scanBoundary lines i limit dflt < limit)"
proof (induction lines i limit dflt rule: scanBoundary.induct)
  case (1 lines i limit dflt)
  show ?case
  proof (cases "i < limit \<and> \<not> startsWith (lines ! i) ''## ''")
    case True
    then have eq: "scanBoundary lines i limit dflt = scanBoundary lines (Suc i) limit dflt"
      by (subst scanBoundary.simps) simp
    from True "1.IH" show ?thesis
      unfolding eq by auto
  next
    case False
    then show ?thesis
      by (subst (1 2 3) scanBoundary.simps) auto
  qed
qed


lemma scanBoundary_finds:
  "first_boundary_at lines i limit (scanBoundary lines i limit dflt) \<or>
   (scanBoundary lines i limit dflt = dflt \<and> no_boundary lines i limit)"
proof (induction lines i limit dflt rule: scanBoundary.induct)
  case (1 lines i limit dflt)
  show ?case
  proof (cases "i < limit")
    case False
    then show ?thesis
      by (subst (1 2) scanBoundary.simps) (simp add: no_boundary_def)
  next
    case lt: True
    show ?thesis
    proof (cases "startsWith (lines ! i) ''## ''")
      case True
      with lt have "scanBoundary lines i limit dflt = i"
        by (subst scanBoundary.simps) simp
      with lt True show ?thesis
        by (simp add: first_boundary_at_def)
    next
      case False
      with lt have eq: "scanBoundary lines i limit dflt = scanBoundary lines (Suc i) limit dflt"
        by (subst scanBoundary.simps) simp
      from lt have upt: "\<And>k. Suc i \<le> k \<Longrightarrow> [i..<k] = i # [Suc i..<k]"
        by (simp add: upt_conv_Cons)
      from "1.IH" [OF lt False] lt False show ?thesis
        unfolding eq first_boundary_at_def no_boundary_def
        by (auto simp: upt upt_conv_Cons)
    qed
  qed
qed

lemma splitIndex_less: "splitIndex content < length (js_split_nl content)"
proof -
  let ?lines = "js_split_nl content"
  let ?mid = "length ?lines div 2"
  have pos: "0 < length ?lines" by (rule length_js_split_nl)
  then have mid: "?mid < length ?lines" by simp
  from scanBoundary_range [of ?lines ?mid "length ?lines" ?mid] mid
  show ?thesis by (auto simp: splitIndex_def Let_def)
qed

lemma scanBoundary_between:
  "t \<le> scanBoundary lines t (min (t + q) n) t \<and>
   scanBoundary lines t (min (t + q) n) t \<le> t + q"
  using scanBoundary_range [of lines t "min (t + q) n" t] by auto

lemma splitPoints_ordered:
  "\<exists>a b c. splitPoints content = [a, b, c] \<and> a \<le> b \<and> b \<le> c \<and>
     c \<le> length (js_split_nl content)"
proof -
  let ?lines = "js_split_nl content"
  let ?n = "length ?lines"
  let ?q = "?n div 4"
  let ?f = "\<lambda>quarter. scanBoundary ?lines (quarter * ?q) (min (quarter * ?q + ?q) ?n) (quarter * ?q)"
  have sp: "splitPoints content = [?f 1, ?f 2, ?f 3]"
    by (simp only: splitPoints_def Let_def list.map)
  have a: "1 * ?q \<le> ?f 1 \<and> ?f 1 \<le> 1 * ?q + ?q" by (rule scanBoundary_between)
  have b: "2 * ?q \<le> ?f 2 \<and> ?f 2 \<le> 2 * ?q + ?q" by (rule scanBoundary_between)
  have c: "3 * ?q \<le> ?f 3 \<and> ?f 3 \<le> 3 * ?q + ?q" by (rule scanBoundary_between)
  have "4 * ?q \<le> ?n" by simp
  with a b c have "?f 1 \<le> ?f 2 \<and> ?f 2 \<le> ?f 3 \<and> ?f 3 \<le> ?n" by linarith
  with sp show ?thesis by blast
qed

lemma slices_cover:
  assumes "a \<le> b" and "b \<le> c"
  shows "js_slice xs 0 a @ js_slice xs a b @ js_slice xs b c @ js_slice_from xs c = xs"
proof -
  have ab: "take (b - a) (drop a xs) @ drop b xs = drop a xs"
    using assms(1) by (metis append_take_drop_id drop_drop le_add_diff_inverse2)
  have bc: "take (c - b) (drop b xs) @ drop c xs = drop b xs"
    using assms(2) by (metis append_take_drop_id drop_drop le_add_diff_inverse2)
  show ?thesis
    by (simp add: js_slice_def js_slice_from_def ab bc)
qed


lemma splitIndex_finds:
  "first_boundary_at (js_split_nl content) (length (js_split_nl content) div 2)
     (length (js_split_nl content)) (splitIndex content) \<or>
   (splitIndex content = length (js_split_nl content) div 2 \<and>
    no_boundary (js_split_nl content) (length (js_split_nl content) div 2)
      (length (js_split_nl content)))"
  unfolding splitIndex_def Let_def by (rule scanBoundary_finds)

lemma splitIndex_ge_mid: "length (js_split_nl content) div 2 \<le> splitIndex content"
  using scanBoundary_range [of "js_split_nl content" "length (js_split_nl content) div 2"
      "length (js_split_nl content)" "length (js_split_nl content) div 2"]
  by (auto simp: splitIndex_def Let_def)

lemma halves_cover: "js_slice xs 0 k @ js_slice_from xs k = xs"
  by (simp add: js_slice_def js_slice_from_def)

text \<open>
  C5. For every content, \<open>splitMonthContent\<close> returns the two segments joined with
  newlines: the first is the lines before the split index, the second the lines from the
  split index on, and together they are the lines of the document. The split index is
  the first line at or after the midpoint that starts with the level-2 heading token, or
  the midpoint when no line from the midpoint on does.
\<close>

theorem splitMonthContent_two_segments:
  "splitMonthContent content =
     (js_join nl (js_slice (js_split_nl content) 0 (splitIndex content)),
      js_join nl (js_slice_from (js_split_nl content) (splitIndex content))) \<and>
   js_slice (js_split_nl content) 0 (splitIndex content) =
     take (splitIndex content) (js_split_nl content) \<and>
   js_slice_from (js_split_nl content) (splitIndex content) =
     drop (splitIndex content) (js_split_nl content) \<and>
   js_slice (js_split_nl content) 0 (splitIndex content) @
     js_slice_from (js_split_nl content) (splitIndex content) = js_split_nl content \<and>
   (first_boundary_at (js_split_nl content) (length (js_split_nl content) div 2)
      (length (js_split_nl content)) (splitIndex content) \<or>
    (splitIndex content = length (js_split_nl content) div 2 \<and>
     no_boundary (js_split_nl content) (length (js_split_nl content) div 2)
       (length (js_split_nl content))))"
proof -
  have "splitMonthContent content =
     (js_join nl (js_slice (js_split_nl content) 0 (splitIndex content)),
      js_join nl (js_slice_from (js_split_nl content) (splitIndex content)))"
    by (simp add: splitMonthContent_def Let_def)
  moreover have "js_slice (js_split_nl content) 0 (splitIndex content) =
     take (splitIndex content) (js_split_nl content)"
    by (simp add: js_slice_def)
  moreover have "js_slice_from (js_split_nl content) (splitIndex content) =
     drop (splitIndex content) (js_split_nl content)"
    by (simp add: js_slice_from_def)
  moreover note halves_cover [of "js_split_nl content" "splitIndex content"]
  moreover note splitIndex_finds [of content]
  ultimately show ?thesis by blast
qed

theorem splitMonthContent_two_segments_witness:
  "splitMonthContent ''intro\<newline>line\<newline>## May 2\<newline>text'' =
     (''intro\<newline>line'', ''## May 2\<newline>text'') \<and>
   splitIndex ''intro\<newline>line\<newline>## May 2\<newline>text'' = 2 \<and>
   js_slice (js_split_nl ''intro\<newline>line\<newline>## May 2\<newline>text'') 0 2 @
     js_slice_from (js_split_nl ''intro\<newline>line\<newline>## May 2\<newline>text'') 2 =
     [''intro'', ''line'', ''## May 2'', ''text''] \<and>
   first_boundary_at [''intro'', ''line'', ''## May 2'', ''text''] 2 4 2"
proof -
  have lines: "js_split_nl ''intro\<newline>line\<newline>## May 2\<newline>text'' =
      [''intro'', ''line'', ''## May 2'', ''text'']"
    by code_simp
  have idx: "splitIndex ''intro\<newline>line\<newline>## May 2\<newline>text'' = 2"
    by code_simp
  have fb: "first_boundary_at [''intro'', ''line'', ''## May 2'', ''text''] 2 4 2"
    by code_simp
  have j1: "js_join nl (js_slice [''intro'', ''line'', ''## May 2'', ''text''] 0 2) = ''intro\<newline>line''"
    by code_simp
  have j2: "js_join nl (js_slice_from [''intro'', ''line'', ''## May 2'', ''text''] 2) = ''## May 2\<newline>text''"
    by code_simp
  from splitMonthContent_two_segments [of "''intro\<newline>line\<newline>## May 2\<newline>text''"]
  show ?thesis
    unfolding lines idx j1 j2 using fb by simp
qed

text \<open>
  C10. For every content, the split index of \<open>splitMonthContent\<close> is less than the
  number of lines, so the second segment holds at least one line. The first segment
  holds no line exactly when the split index is 0, which happens exactly when the
  document is a single line.
\<close>

theorem splitMonthContent_second_nonempty:
  "splitIndex content < length (js_split_nl content) \<and>
   js_slice_from (js_split_nl content) (splitIndex content) \<noteq> [] \<and>
   snd (splitMonthContent content) =
     js_join nl (js_slice_from (js_split_nl content) (splitIndex content)) \<and>
   (js_slice (js_split_nl content) 0 (splitIndex content) = [] \<longleftrightarrow> splitIndex content = 0) \<and>
   (splitIndex content = 0 \<longleftrightarrow> length (js_split_nl content) = 1)"
proof -
  let ?lines = "js_split_nl content"
  have lt: "splitIndex content < length ?lines" by (rule splitIndex_less)
  have ge: "length ?lines div 2 \<le> splitIndex content" by (rule splitIndex_ge_mid)
  have pos: "0 < length ?lines" by (rule length_js_split_nl)
  have second: "js_slice_from ?lines (splitIndex content) \<noteq> []"
    using lt by (simp add: js_slice_from_def)
  have snd_eq: "snd (splitMonthContent content) =
      js_join nl (js_slice_from ?lines (splitIndex content))"
    by (simp add: splitMonthContent_def Let_def)
  have first: "js_slice ?lines 0 (splitIndex content) = [] \<longleftrightarrow> splitIndex content = 0"
    using pos by (auto simp: js_slice_def)
  have single: "splitIndex content = 0 \<longleftrightarrow> length ?lines = 1"
  proof
    assume "splitIndex content = 0"
    with ge have "length ?lines div 2 = 0" by simp
    with pos show "length ?lines = 1" by linarith
  next
    assume "length ?lines = 1"
    with lt show "splitIndex content = 0" by simp
  qed
  from lt second snd_eq first single show ?thesis by blast
qed

theorem splitMonthContent_second_nonempty_witness:
  "splitIndex ''only line'' = 0 \<and> splitIndex ''only line'' < length (js_split_nl ''only line'') \<and>
   length (js_split_nl ''only line'') = 1 \<and>
   splitMonthContent ''only line'' = ([], ''only line'')"
proof -
  have sm: "splitMonthContent ''only line'' = ([], ''only line'')"
    by code_simp
  have len: "length (js_split_nl ''only line'') = 1"
    by code_simp
  from splitMonthContent_second_nonempty [of "''only line''"] len sm
  show ?thesis by simp
qed

text \<open>
  C4. For every content, \<open>splitMonthContentIntoFour\<close> returns four segments joined
  with newlines, cut at the three split points; the split points are non-decreasing and
  the four segments, in order, are the lines of the document with no overlap and no gap.
\<close>

theorem splitMonthContentIntoFour_partition:
  "\<exists>a b c. splitPoints content = [a, b, c] \<and> a \<le> b \<and> b \<le> c \<and>
     splitMonthContentIntoFour content =
       [js_join nl (js_slice (js_split_nl content) 0 a),
        js_join nl (js_slice (js_split_nl content) a b),
        js_join nl (js_slice (js_split_nl content) b c),
        js_join nl (js_slice_from (js_split_nl content) c)] \<and>
     js_slice (js_split_nl content) 0 a @ js_slice (js_split_nl content) a b @
       js_slice (js_split_nl content) b c @ js_slice_from (js_split_nl content) c =
       js_split_nl content"
proof -
  from splitPoints_ordered [of content] obtain a b c where
    sp: "splitPoints content = [a, b, c]" and ab: "a \<le> b" and bc: "b \<le> c"
    by blast
  have four: "splitMonthContentIntoFour content =
       [js_join nl (js_slice (js_split_nl content) 0 a),
        js_join nl (js_slice (js_split_nl content) a b),
        js_join nl (js_slice (js_split_nl content) b c),
        js_join nl (js_slice_from (js_split_nl content) c)]"
    by (simp add: splitMonthContentIntoFour_def Let_def sp)
  from sp ab bc four slices_cover [OF ab bc, of "js_split_nl content"]
  show ?thesis by blast
qed

theorem splitMonthContentIntoFour_partition_witness:
  "splitPoints ''a\<newline>b\<newline>## c\<newline>d\<newline>e\<newline>f\<newline>g\<newline>h\<newline>i'' = [2, 4, 6] \<and>
   splitMonthContentIntoFour ''a\<newline>b\<newline>## c\<newline>d\<newline>e\<newline>f\<newline>g\<newline>h\<newline>i'' =
     [''a\<newline>b'', ''## c\<newline>d'', ''e\<newline>f'', ''g\<newline>h\<newline>i''] \<and>
   (\<exists>a b c. splitPoints ''a\<newline>b\<newline>## c\<newline>d\<newline>e\<newline>f\<newline>g\<newline>h\<newline>i'' = [a, b, c] \<and> a \<le> b \<and> b \<le> c \<and>
     js_slice (js_split_nl ''a\<newline>b\<newline>## c\<newline>d\<newline>e\<newline>f\<newline>g\<newline>h\<newline>i'') 0 a @
       js_slice (js_split_nl ''a\<newline>b\<newline>## c\<newline>d\<newline>e\<newline>f\<newline>g\<newline>h\<newline>i'') a b @
       js_slice (js_split_nl ''a\<newline>b\<newline>## c\<newline>d\<newline>e\<newline>f\<newline>g\<newline>h\<newline>i'') b c @
       js_slice_from (js_split_nl ''a\<newline>b\<newline>## c\<newline>d\<newline>e\<newline>f\<newline>g\<newline>h\<newline>i'') c =
       js_split_nl ''a\<newline>b\<newline>## c\<newline>d\<newline>e\<newline>f\<newline>g\<newline>h\<newline>i'')"
proof -
  have sp: "splitPoints ''a\<newline>b\<newline>## c\<newline>d\<newline>e\<newline>f\<newline>g\<newline>h\<newline>i'' = [2, 4, 6]"
    by code_simp
  have four: "splitMonthContentIntoFour ''a\<newline>b\<newline>## c\<newline>d\<newline>e\<newline>f\<newline>g\<newline>h\<newline>i'' =
     [''a\<newline>b'', ''## c\<newline>d'', ''e\<newline>f'', ''g\<newline>h\<newline>i'']"
    by code_simp
  from splitMonthContentIntoFour_partition [of "''a\<newline>b\<newline>## c\<newline>d\<newline>e\<newline>f\<newline>g\<newline>h\<newline>i''"] sp four
  show ?thesis by blast
qed

section \<open>The example installation\<close>

lemma script_env_fields:
  "dirname (script_env script) = ''/app''"
  "monthNameOf (script_env script) monthFile = ''February 2021''"
  "clock (script_env script) n = 1000 * int n"
  "respond (script_env script) history req =
     (if length history < length script then script ! length history
      else Throws ''connection refused'')"
  "textFiles (script_env script) ''/app/prompt.md'' = Some ''Summarize.''"
  "textFiles (script_env script) ''/app/output/2021-02.md'' =
     Some ''## Feb 1\<newline>hello\<newline>## Feb 2\<newline>bye''"
  by (simp_all add: script_env_def)

lemma script_env_prompt: "getSystemPrompt (script_env script) = Inr ''Summarize.''"
  by (simp add: getSystemPrompt_def path_join_def script_env_fields)

lemma script_env_document:
  "textFiles (script_env script) (path_join ''/app/output'' ''2021-02.md'') =
     Some ''## Feb 1\<newline>hello\<newline>## Feb 2\<newline>bye''"
  by (simp add: path_join_def script_env_fields)

lemma script_env_paths:
  "getCacheFilePath (script_env script) ''2021-02.md'' = ''/app/cache/2021-02.json''"
  "oneSentenceCachePath (script_env script) ''2021-02.md'' = ''/app/cache/2021-02-onesentence.json''"
  by (simp_all add: oneSentenceCachePath_def getCacheFilePath_def getCacheDir_def path_join_def
        script_env_fields js_replace_def startsWith_def)

lemma empty_world_fields:
  "cacheFiles empty_world p = None" "calls empty_world = []" "ticks empty_world = 0"
  by (simp_all add: empty_world_def)

lemma empty_world_miss:
  "fst (getCachedSummary e monthFile empty_world) = None"
  by (simp add: getCachedSummary_def empty_world_fields)


section \<open>Properties of the cache\<close>

lemma getCachedSummary_Some_iff:
  "fst (getCachedSummary e monthFile w) = Some s \<longleftrightarrow>
     (\<exists>d. cacheFiles w (getCacheFilePath e monthFile) = Some (Parsed d) \<and>
          \<not> js_gt (js_minus (clock e (ticks w)) (cd_timestamp d)) maxAge \<and>
          cd_summary d = Some s \<and> 10 \<le> length s)"
  by (auto simp: getCachedSummary_def Date_now_def Let_def
           split: option.splits cacheFile.splits)

lemma getCachedSummary_numeric_iff:
  assumes "cacheFiles w (getCacheFilePath e monthFile) = Some (Parsed d)"
      and "cd_timestamp d = Some t"
  shows "fst (getCachedSummary e monthFile w) = Some s \<longleftrightarrow>
           clock e (ticks w) - t \<le> maxAge \<and> cd_summary d = Some s \<and> 10 \<le> length s"
  using assms by (auto simp: getCachedSummary_Some_iff js_gt_def js_minus_def)

lemma getCachedSummary_unstamped:
  assumes "cacheFiles w (getCacheFilePath e monthFile) = Some (Parsed d)"
      and "cd_timestamp d = None"
  shows "fst (getCachedSummary e monthFile w) = Some s \<longleftrightarrow>
           cd_summary d = Some s \<and> 10 \<le> length s"
  using assms by (auto simp: getCachedSummary_Some_iff js_gt_def js_minus_def)

lemma getCachedSummary_absent:
  "cacheFiles w (getCacheFilePath e monthFile) = None \<or>
   cacheFiles w (getCacheFilePath e monthFile) = Some Corrupted \<Longrightarrow>
   getCachedSummary e monthFile w = (None, w)"
  by (auto simp: getCachedSummary_def)

lemma getCachedSummary_cacheFiles:
  "cacheFiles (snd (getCachedSummary e monthFile w)) = cacheFiles w"
  by (auto simp: getCachedSummary_def Date_now_def Let_def
           split: option.splits cacheFile.splits)

lemma getCachedSummary_calls:
  "calls (snd (getCachedSummary e monthFile w)) = calls w"
  by (auto simp: getCachedSummary_def Date_now_def Let_def
           split: option.splits cacheFile.splits)

lemma cachedOneSentence_unstamped:
  assumes "cacheFiles w (oneSentenceCachePath e monthFile) = Some (Parsed d)"
      and "cd_timestamp d = None"
  shows "fst (cachedOneSentence e monthFile w) = None"
  using assms by (simp add: cachedOneSentence_def Date_now_def Let_def js_le_def js_minus_def)

text \<open>
  C3. The specification has \<open>getCachedSummary\<close> return the cached summary only when the
  record's age is at most 7 days. For a record with a numeric timestamp that is what
  the code does (\<open>getCachedSummary_numeric_iff\<close>: an age equal to \<open>maxAge\<close> is still
  valid). A parsed record whose \<open>timestamp\<close> key is missing has the age NaN; the expiry
  test \<open>cacheAge > maxAge\<close> is false for it, so its summary is returned at every clock
  value. The same record stamped 1000 is returned at 604801000 and expired at
  604802000, and the digest cache, whose test is \<open>cacheAge <= maxAge\<close>, refuses a record
  without timestamp at every clock value.
\<close>

theorem getCachedSummary_unstamped_never_expires:
  "(\<forall>n. fst (getCachedSummary (script_env []) ''2021-02.md''
          (cache_world [(''/app/cache/2021-02.json'',
             Parsed (unstamped_summary_record ''## February 2021\<newline>\<newline>A month.''))] n))
        = Some ''## February 2021\<newline>\<newline>A month.'') \<and>
   fst (getCachedSummary (script_env []) ''2021-02.md''
         (cache_world [(''/app/cache/2021-02.json'',
            Parsed (summary_record 1000 ''## February 2021\<newline>\<newline>A month.''))] 604801))
     = Some ''## February 2021\<newline>\<newline>A month.'' \<and>
   fst (getCachedSummary (script_env []) ''2021-02.md''
         (cache_world [(''/app/cache/2021-02.json'',
            Parsed (summary_record 1000 ''## February 2021\<newline>\<newline>A month.''))] 604802))
     = None \<and>
   (\<forall>n. fst (cachedOneSentence (script_env []) ''2021-02.md''
          (cache_world [(''/app/cache/2021-02-onesentence.json'',
             Parsed (unstamped_digest_record ''One sentence.''))] n))
        = None)"
proof -
  let ?e = "script_env []"
  let ?s = "''## February 2021\<newline>\<newline>A month.''"
  have path: "getCacheFilePath ?e ''2021-02.md'' = ''/app/cache/2021-02.json''"
    by (rule script_env_paths)
  have dpath: "oneSentenceCachePath ?e ''2021-02.md'' = ''/app/cache/2021-02-onesentence.json''"
    by (rule script_env_paths)
  have unstamped: "fst (getCachedSummary ?e ''2021-02.md''
      (cache_world [(''/app/cache/2021-02.json'', Parsed (unstamped_summary_record ?s))] n)) = Some ?s"
    for n
    by (subst getCachedSummary_unstamped [where d = "unstamped_summary_record ?s"])
       (simp_all add: path cache_world_def unstamped_summary_record_def)
  have stamped: "fst (getCachedSummary ?e ''2021-02.md''
      (cache_world [(''/app/cache/2021-02.json'', Parsed (summary_record 1000 ?s))] n)) = Some ?s
      \<longleftrightarrow> 1000 * int n - 1000 \<le> maxAge" for n
    by (subst getCachedSummary_numeric_iff [where d = "summary_record 1000 ?s" and t = 1000])
       (simp_all add: path cache_world_def summary_record_def script_env_fields)
  have valid: "fst (getCachedSummary ?e ''2021-02.md''
      (cache_world [(''/app/cache/2021-02.json'', Parsed (summary_record 1000 ?s))] 604801)) = Some ?s"
    unfolding stamped by (simp add: maxAge_def)
  have "fst (getCachedSummary ?e ''2021-02.md''
      (cache_world [(''/app/cache/2021-02.json'', Parsed (summary_record 1000 ?s))] 604802)) \<noteq> Some t"
    for t
    by (subst getCachedSummary_numeric_iff [where d = "summary_record 1000 ?s" and t = 1000])
       (simp_all add: path cache_world_def summary_record_def script_env_fields maxAge_def)
  then have expired: "fst (getCachedSummary ?e ''2021-02.md''
      (cache_world [(''/app/cache/2021-02.json'', Parsed (summary_record 1000 ?s))] 604802)) = None"
    by (metis option.exhaust)
  have digest: "fst (cachedOneSentence ?e ''2021-02.md''
      (cache_world [(''/app/cache/2021-02-onesentence.json'',
         Parsed (unstamped_digest_record ''One sentence.''))] n)) = None" for n
    by (rule cachedOneSentence_unstamped [where d = "unstamped_digest_record ''One sentence.''"])
       (simp_all add: dpath cache_world_def unstamped_digest_record_def)
  from unstamped valid expired digest show ?thesis
    by blast
qed

lemma cachedOneSentence_Some_iff:
  "fst (cachedOneSentence e monthFile w) = Some s \<longleftrightarrow> digest_valid e monthFile w s"
  by (auto simp: cachedOneSentence_def digest_valid_def Date_now_def Let_def js_le_def
                 js_minus_def
           split: option.splits cacheFile.splits)

lemma cachedOneSentence_world:
  "cacheFiles (snd (cachedOneSentence e monthFile w)) = cacheFiles w \<and>
   calls (snd (cachedOneSentence e monthFile w)) = calls w"
  by (auto simp: cachedOneSentence_def Date_now_def Let_def
           split: option.splits cacheFile.splits)

lemma create_world:
  "cacheFiles (snd (create e req w)) = cacheFiles w \<and>
   calls (snd (create e req w)) = calls w @ [req] \<and>
   ticks (snd (create e req w)) = ticks w"
  by (auto simp: create_def Let_def split: completion.splits)

lemma generateOneSentenceSummary_reuse:
  assumes "digest_valid e monthFile w s"
  shows "generateOneSentenceSummary e monthFile fullSummary w =
           (s, snd (cachedOneSentence e monthFile w))"
proof -
  from assms have "fst (cachedOneSentence e monthFile w) = Some s"
    by (simp add: cachedOneSentence_Some_iff)
  then obtain w1 where c: "cachedOneSentence e monthFile w = (Some s, w1)"
    by (metis prod.collapse)
  show ?thesis
    by (simp add: generateOneSentenceSummary_def c)
qed

lemma generateOneSentenceSummary_regenerate:
  assumes "\<forall>s. \<not> digest_valid e monthFile w s"
  shows "calls (snd (generateOneSentenceSummary e monthFile fullSummary w)) =
           calls w @ [oneSentenceRequest fullSummary]"
proof -
  from assms have "fst (cachedOneSentence e monthFile w) = None"
    using cachedOneSentence_Some_iff [of e monthFile w] by (metis option.exhaust)
  then obtain w1 where c: "cachedOneSentence e monthFile w = (None, w1)"
    by (metis prod.collapse)
  with cachedOneSentence_world [of e monthFile w] have w1: "calls w1 = calls w"
    by simp
  obtain r w2 where cr: "create e (oneSentenceRequest fullSummary) w1 = (r, w2)"
    by (metis prod.collapse)
  with create_world [of e "oneSentenceRequest fullSummary" w1] w1
  have w2: "calls w2 = calls w @ [oneSentenceRequest fullSummary]"
    by simp
  show ?thesis
    using w2
    by (auto simp: generateOneSentenceSummary_def c cr Date_now_def Let_def
             split: sum.splits)
qed





section \<open>Properties of generateMonthSummary\<close>

lemma getCachedSummary_miss:
  assumes "fst (getCachedSummary e monthFile w) = None"
  obtains w1 where "getCachedSummary e monthFile w = (None, w1)"
    and "cacheFiles w1 = cacheFiles w" and "calls w1 = calls w"
proof -
  obtain w1 where eq: "getCachedSummary e monthFile w = (None, w1)"
    using assms by (metis prod.collapse)
  with getCachedSummary_cacheFiles [of e monthFile w] getCachedSummary_calls [of e monthFile w]
  have "cacheFiles w1 = cacheFiles w" "calls w1 = calls w"
    by simp_all
  with eq that show thesis by blast
qed

lemma createSummary_throws:
  assumes "getSystemPrompt e = Inr systemPrompt"
      and "respond e (calls w) (summaryRequest systemPrompt userContent) = Throws msg"
  shows "createSummary e userContent w =
           (Inl (JsError msg), w\<lparr>calls := calls w @ [summaryRequest systemPrompt userContent]\<rparr>)"
  using assms by (simp add: createSummary_def create_def Let_def)

lemma createSummary_content:
  assumes "getSystemPrompt e = Inr systemPrompt"
      and "respond e (calls w) (summaryRequest systemPrompt userContent) = Content c"
  shows "createSummary e userContent w =
           (Inr c, w\<lparr>calls := calls w @ [summaryRequest systemPrompt userContent]\<rparr>)"
  using assms by (simp add: createSummary_def create_def Let_def)

text \<open>
  C7. When the month has no valid cache entry and the whole-document call throws an
  error whose message has no size-limit wording, \<open>generateMonthSummary\<close> returns the
  month heading followed by \<open>Error generating summary: \<close> and the error's message,
  writes nothing to the cache, and has sent that one request only.
\<close>

theorem service_error_inline:
  assumes "textFiles e (path_join outputDir monthFile) = Some content"
      and "fst (getCachedSummary e monthFile w) = None"
      and "getSystemPrompt e = Inr systemPrompt"
      and "respond e (calls w)
             (summaryRequest systemPrompt (''# '' @ monthNameOf e monthFile @ nl2 @ content))
           = Throws msg"
      and "\<not> isTokenLimit msg"
  shows "fst (generateMonthSummary e monthFile outputDir w) =
           Inr (''## '' @ monthNameOf e monthFile @ nl2 @ ''Error generating summary: '' @ msg) \<and>
         cacheFiles (snd (generateMonthSummary e monthFile outputDir w)) = cacheFiles w \<and>
         calls (snd (generateMonthSummary e monthFile outputDir w)) =
           calls w @ [summaryRequest systemPrompt (''# '' @ monthNameOf e monthFile @ nl2 @ content)]"
proof -
  let ?mn = "monthNameOf e monthFile"
  let ?req = "summaryRequest systemPrompt (''# '' @ ?mn @ nl2 @ content)"
  from assms(2) obtain w1 where
    miss: "getCachedSummary e monthFile w = (None, w1)" and
    files: "cacheFiles w1 = cacheFiles w" and calls: "calls w1 = calls w"
    by (rule getCachedSummary_miss)
  from assms(4) calls have "respond e (calls w1) ?req = Throws msg"
    by simp
  with assms(3) have "createSummary e (''# '' @ ?mn @ nl2 @ content) w1 =
      (Inl (JsError msg), w1\<lparr>calls := calls w1 @ [?req]\<rparr>)"
    by (rule createSummary_throws)
  then have whole: "wholeAttempt e monthFile ?mn content w1 =
      (Inl (JsError msg), w1\<lparr>calls := calls w1 @ [?req]\<rparr>)"
    by (simp add: wholeAttempt_def)
  have "generateMonthSummary e monthFile outputDir w =
      (Inr (errorBlock ?mn (JsError msg)), w1\<lparr>calls := calls w1 @ [?req]\<rparr>)"
    using assms(1,5) by (simp add: generateMonthSummary_def Let_def miss whole)
  then show ?thesis
    by (simp add: errorBlock_def heading_def files calls)
qed

theorem service_error_inline_witness:
  "fst (generateMonthSummary (script_env [Throws ''429 quota exceeded'']) ''2021-02.md''
          ''/app/output'' empty_world) =
     Inr ''## February 2021\<newline>\<newline>Error generating summary: 429 quota exceeded'' \<and>
   cacheFiles (snd (generateMonthSummary (script_env [Throws ''429 quota exceeded''])
          ''2021-02.md'' ''/app/output'' empty_world)) ''/app/cache/2021-02.json'' = None \<and>
   calls (snd (generateMonthSummary (script_env [Throws ''429 quota exceeded''])
          ''2021-02.md'' ''/app/output'' empty_world)) =
     [[(''system'', ''Summarize.''),
       (''user'', ''# February 2021\<newline>\<newline>## Feb 1\<newline>hello\<newline>## Feb 2\<newline>bye'')]]"
proof -
  let ?e = "script_env [Throws ''429 quota exceeded'']"
  let ?content = "''## Feb 1\<newline>hello\<newline>## Feb 2\<newline>bye''"
  have fails: "respond ?e (calls empty_world)
      (summaryRequest ''Summarize.'' (''# '' @ monthNameOf ?e ''2021-02.md'' @ nl2 @ ?content))
      = Throws ''429 quota exceeded''"
    by (simp add: script_env_fields empty_world_fields)
  have service: "\<not> isTokenLimit ''429 quota exceeded''"
    by code_simp
  from service_error_inline [OF script_env_document empty_world_miss script_env_prompt fails service]
  show ?thesis
    by (simp add: script_env_fields empty_world_fields summaryRequest_def nl2_def)
qed


lemma saveToCache_fields:
  "cacheFiles (saveToCache e monthFile s w) =
     (cacheFiles w)(getCacheFilePath e monthFile \<mapsto>
        Parsed \<lparr>cd_timestamp = Some (clock e (ticks w)), cd_monthFile = monthFile,
                cd_summary = Some s, cd_oneSentenceSummary = None,
                cd_model = ''gpt-5-mini''\<rparr>)"
  "calls (saveToCache e monthFile s w) = calls w"
  "ticks (saveToCache e monthFile s w) = Suc (ticks w)"
  by (simp_all add: saveToCache_def Date_now_def Let_def)

lemma generateOneSentenceSummary_calls:
  "calls (snd (generateOneSentenceSummary e monthFile fullSummary w)) = calls w \<or>
   calls (snd (generateOneSentenceSummary e monthFile fullSummary w)) =
     calls w @ [oneSentenceRequest fullSummary]"
proof (cases "\<exists>s. digest_valid e monthFile w s")
  case True
  then obtain s where "digest_valid e monthFile w s" ..
  from generateOneSentenceSummary_reuse [OF this, of fullSummary]
       cachedOneSentence_world [of e monthFile w]
  show ?thesis by simp
next
  case False
  then have "\<forall>s. \<not> digest_valid e monthFile w s" by simp
  from generateOneSentenceSummary_regenerate [OF this, of fullSummary]
  show ?thesis by simp
qed

lemma cache_hit_run:
  assumes "textFiles e (path_join outputDir monthFile) = Some content"
      and "getCachedSummary e monthFile w = (Some cachedSummary, w1)"
  shows "generateMonthSummary e monthFile outputDir w =
           (Inr (withTldr (monthNameOf e monthFile)
                   (fst (generateOneSentenceSummary e monthFile cachedSummary w1)) cachedSummary),
            snd (generateOneSentenceSummary e monthFile cachedSummary w1))"
  using assms by (simp add: generateMonthSummary_def Let_def split_def)

lemma wholeAttempt_placeholder:
  assumes "getSystemPrompt e = Inr systemPrompt"
      and "respond e (calls w) (summaryRequest systemPrompt (''# '' @ monthName @ nl2 @ content))
           = Content (Some c)"
      and "length (trim c) < 10"
  shows "wholeAttempt e monthFile monthName content w =
           (Inr (placeholderText monthName),
            saveToCache e monthFile (placeholderText monthName)
              (w\<lparr>calls := calls w @ [summaryRequest systemPrompt (''# '' @ monthName @ nl2 @ content)]\<rparr>))"
  unfolding wholeAttempt_def createSummary_content [OF assms(1,2)]
  using assms(3) by (simp add: content_trim_def Let_def)

text \<open>
  C6 (as amended). When the month has no valid cache entry and the whole-document call
  returns a content whose trimmed text is shorter than 10 characters (empty included),
  \<open>generateMonthSummary\<close> returns the month heading followed by
  \<open>No significant activity recorded for this month.\<close>, writes that text to the month's
  cache file and has sent that one request only. A later run that finds this entry at
  most 7 days old is a cache hit: it sends no request for the document, and sends
  either no request at all or exactly one, the request for the one-sentence digest of
  the placeholder.
\<close>

theorem placeholder_cached:
  assumes "textFiles e (path_join outputDir monthFile) = Some content"
      and "fst (getCachedSummary e monthFile w) = None"
      and "getSystemPrompt e = Inr systemPrompt"
      and "respond e (calls w)
             (summaryRequest systemPrompt (''# '' @ monthNameOf e monthFile @ nl2 @ content))
           = Content (Some c)"
      and "length (trim c) < 10"
  shows "fst (generateMonthSummary e monthFile outputDir w) =
           Inr (''## '' @ monthNameOf e monthFile @ nl2 @
                ''No significant activity recorded for this month.'') \<and>
         calls (snd (generateMonthSummary e monthFile outputDir w)) =
           calls w @ [summaryRequest systemPrompt (''# '' @ monthNameOf e monthFile @ nl2 @ content)] \<and>
         (\<exists>d. cacheFiles (snd (generateMonthSummary e monthFile outputDir w))
                 (getCacheFilePath e monthFile) = Some (Parsed d) \<and>
              cd_summary d = Some (''## '' @ monthNameOf e monthFile @ nl2 @
                ''No significant activity recorded for this month.'') \<and>
              cd_timestamp d = Some (clock e (ticks (snd (getCachedSummary e monthFile w)))) \<and>
              (\<forall>w2. cacheFiles w2 (getCacheFilePath e monthFile) = Some (Parsed d) \<and>
                    js_le (js_minus (clock e (ticks w2)) (cd_timestamp d)) maxAge \<longrightarrow>
                 fst (getCachedSummary e monthFile w2) =
                   Some (''## '' @ monthNameOf e monthFile @ nl2 @
                     ''No significant activity recorded for this month.'') \<and>
                 (calls (snd (generateMonthSummary e monthFile outputDir w2)) = calls w2 \<or>
                  calls (snd (generateMonthSummary e monthFile outputDir w2)) =
                    calls w2 @ [oneSentenceRequest (''## '' @ monthNameOf e monthFile @ nl2 @
                      ''No significant activity recorded for this month.'')])))"
proof -
  let ?mn = "monthNameOf e monthFile"
  let ?req = "summaryRequest systemPrompt (''# '' @ ?mn @ nl2 @ content)"
  let ?ph = "''## '' @ ?mn @ nl2 @ ''No significant activity recorded for this month.''"
  have ph: "placeholderText ?mn = ?ph"
    by (simp add: placeholderText_def heading_def)
  from assms(2) obtain w1 where
    miss: "getCachedSummary e monthFile w = (None, w1)" and
    files: "cacheFiles w1 = cacheFiles w" and calls: "calls w1 = calls w"
    by (rule getCachedSummary_miss)
  let ?w2 = "saveToCache e monthFile ?ph (w1\<lparr>calls := calls w1 @ [?req]\<rparr>)"
  let ?d = "\<lparr>cd_timestamp = Some (clock e (ticks w1)), cd_monthFile = monthFile,
             cd_summary = Some ?ph, cd_oneSentenceSummary = None, cd_model = ''gpt-5-mini''\<rparr>"
  from assms(4) calls have "respond e (calls w1) ?req = Content (Some c)"
    by simp
  from wholeAttempt_placeholder [OF assms(3) this assms(5), of monthFile]
  have whole: "wholeAttempt e monthFile ?mn content w1 = (Inr ?ph, ?w2)"
    by (simp add: ph)
  have run: "generateMonthSummary e monthFile outputDir w = (Inr ?ph, ?w2)"
    using assms(1) by (simp add: generateMonthSummary_def Let_def miss whole)
  have written: "cacheFiles ?w2 (getCacheFilePath e monthFile) = Some (Parsed ?d)"
    by (simp add: saveToCache_fields)
  have later: "fst (getCachedSummary e monthFile w2) = Some ?ph \<and>
      (calls (snd (generateMonthSummary e monthFile outputDir w2)) = calls w2 \<or>
       calls (snd (generateMonthSummary e monthFile outputDir w2)) =
         calls w2 @ [oneSentenceRequest ?ph])"
    if entry: "cacheFiles w2 (getCacheFilePath e monthFile) = Some (Parsed ?d)"
      and age: "js_le (js_minus (clock e (ticks w2)) (cd_timestamp ?d)) maxAge" for w2
  proof -
    have hit: "fst (getCachedSummary e monthFile w2) = Some ?ph"
      using entry age
      by (subst getCachedSummary_Some_iff) (simp add: js_le_def js_gt_def js_minus_def)
    then obtain w3 where got: "getCachedSummary e monthFile w2 = (Some ?ph, w3)"
      by (metis prod.collapse)
    with getCachedSummary_calls [of e monthFile w2] have c3: "calls w3 = calls w2"
      by simp
    from cache_hit_run [OF assms(1) got] generateOneSentenceSummary_calls [of e monthFile ?ph w3] c3
    have "calls (snd (generateMonthSummary e monthFile outputDir w2)) = calls w2 \<or>
       calls (snd (generateMonthSummary e monthFile outputDir w2)) =
         calls w2 @ [oneSentenceRequest ?ph]"
      by simp
    with hit show ?thesis by simp
  qed
  have "cd_summary ?d = Some ?ph" "cd_timestamp ?d = Some (clock e (ticks w1))" by simp_all
  with written later have "\<exists>d. cacheFiles ?w2 (getCacheFilePath e monthFile) = Some (Parsed d) \<and>
      cd_summary d = Some ?ph \<and>
      cd_timestamp d = Some (clock e (ticks w1)) \<and>
      (\<forall>w2. cacheFiles w2 (getCacheFilePath e monthFile) = Some (Parsed d) \<and>
            js_le (js_minus (clock e (ticks w2)) (cd_timestamp d)) maxAge \<longrightarrow>
         fst (getCachedSummary e monthFile w2) = Some ?ph \<and>
         (calls (snd (generateMonthSummary e monthFile outputDir w2)) = calls w2 \<or>
          calls (snd (generateMonthSummary e monthFile outputDir w2)) =
            calls w2 @ [oneSentenceRequest ?ph]))"
    by blast
  then show ?thesis
    by (simp add: run miss saveToCache_fields calls)
qed

text \<open>
  The service answers the document request with white space and the next request with a
  sentence. The first run returns the placeholder and caches it; the second run finds it
  in the cache and sends one more request, for the digest.
\<close>

theorem placeholder_cached_witness:
  "fst (generateMonthSummary
          (script_env [Content (Some ''   ''), Content (Some ''Quiet month overall.'')])
          ''2021-02.md'' ''/app/output'' empty_world) =
     Inr ''## February 2021\<newline>\<newline>No significant activity recorded for this month.'' \<and>
   length (calls (snd (generateMonthSummary
          (script_env [Content (Some ''   ''), Content (Some ''Quiet month overall.'')])
          ''2021-02.md'' ''/app/output'' empty_world))) = 1 \<and>
   fst (getCachedSummary
          (script_env [Content (Some ''   ''), Content (Some ''Quiet month overall.'')])
          ''2021-02.md''
          (snd (generateMonthSummary
             (script_env [Content (Some ''   ''), Content (Some ''Quiet month overall.'')])
             ''2021-02.md'' ''/app/output'' empty_world))) =
     Some ''## February 2021\<newline>\<newline>No significant activity recorded for this month.''"
proof -
  let ?e = "script_env [Content (Some ''   ''), Content (Some ''Quiet month overall.'')]"
  let ?content = "''## Feb 1\<newline>hello\<newline>## Feb 2\<newline>bye''"
  let ?r1 = "generateMonthSummary ?e ''2021-02.md'' ''/app/output'' empty_world"
  let ?ph = "''## February 2021\<newline>\<newline>No significant activity recorded for this month.''"
  have answer: "respond ?e (calls empty_world)
      (summaryRequest ''Summarize.'' (''# '' @ monthNameOf ?e ''2021-02.md'' @ nl2 @ ?content))
      = Content (Some ''   '')"
    by (simp add: script_env_fields empty_world_fields)
  have short: "length (trim ''   '') < 10"
    by code_simp
  note inst = placeholder_cached [OF script_env_document empty_world_miss script_env_prompt answer short]
  have result: "fst ?r1 = Inr ?ph"
    using inst by (simp add: script_env_fields nl2_def)
  have n: "length (calls (snd ?r1)) = 1"
    using inst by (simp add: empty_world_fields)
  from inst obtain d where
    entry: "cacheFiles (snd ?r1) (getCacheFilePath ?e ''2021-02.md'') = Some (Parsed d)" and
    summ: "cd_summary d = Some ?ph" and
    later: "\<And>w2. cacheFiles w2 (getCacheFilePath ?e ''2021-02.md'') = Some (Parsed d) \<Longrightarrow>
        js_le (js_minus (clock ?e (ticks w2)) (cd_timestamp d)) maxAge \<Longrightarrow>
        fst (getCachedSummary ?e ''2021-02.md'' w2) = Some ?ph"
    by (auto simp: script_env_fields nl2_def)
  have stamp: "cacheFiles (snd ?r1) (getCacheFilePath ?e ''2021-02.md'') =
      Some (Parsed (summary_record 0 ?ph))"
    by code_simp
  with entry have d: "d = summary_record 0 ?ph"
    by simp
  have "ticks (snd ?r1) = 1"
    by code_simp
  then have age: "js_le (js_minus (clock ?e (ticks (snd ?r1))) (cd_timestamp d)) maxAge"
    by (simp add: d summary_record_def script_env_fields maxAge_def js_le_def js_minus_def)
  from later [OF entry age] result n show ?thesis
    by simp
qed

theorem placeholder_second_run_counterexample:
  "fst (generateMonthSummary
          (script_env [Content (Some ''   ''), Content (Some ''Quiet month overall.'')])
          ''2021-02.md'' ''/app/output'' empty_world) =
     Inr ''## February 2021\<newline>\<newline>No significant activity recorded for this month.'' \<and>
   calls (snd (generateMonthSummary
          (script_env [Content (Some ''   ''), Content (Some ''Quiet month overall.'')])
          ''2021-02.md'' ''/app/output''
          (snd (generateMonthSummary
             (script_env [Content (Some ''   ''), Content (Some ''Quiet month overall.'')])
             ''2021-02.md'' ''/app/output'' empty_world)))) =
     calls (snd (generateMonthSummary
          (script_env [Content (Some ''   ''), Content (Some ''Quiet month overall.'')])
          ''2021-02.md'' ''/app/output'' empty_world)) @
     [oneSentenceRequest ''## February 2021\<newline>\<newline>No significant activity recorded for this month.''] \<and>
   fst (generateMonthSummary
          (script_env [Content (Some ''   ''), Content (Some ''Quiet month overall.'')])
          ''2021-02.md'' ''/app/output''
          (snd (generateMonthSummary
             (script_env [Content (Some ''   ''), Content (Some ''Quiet month overall.'')])
             ''2021-02.md'' ''/app/output'' empty_world))) =
     Inr ''## February 2021\<newline>\<newline>**tl;dr:** Quiet month overall.\<newline>\<newline>No significant activity recorded for this month.''"
  by code_simp


lemma find_first_prefix: "find_first pat (pat @ rest) = Some ([], rest)"
proof (cases "pat @ rest")
  case Nil
  then show ?thesis by simp
next
  case (Cons c cs)
  have "startsWith (pat @ rest) pat" by (simp add: startsWith_def)
  with Cons have "find_first pat (c # cs) = Some ([], drop (length pat) (c # cs))"
    by simp
  moreover have "drop (length pat) (c # cs) = rest"
    unfolding Cons [symmetric] by simp
  ultimately show ?thesis
    unfolding Cons by simp
qed

lemma js_replace_prefix:
  "js_replace pat repl (pat @ rest) = get_substitution pat [] rest repl @ rest"
  by (simp add: js_replace_def find_first_prefix)

lemma withTldr_heading:
  "withTldr monthName oneSentenceSummary (heading monthName @ body) =
     get_substitution (heading monthName) [] body
       (heading monthName @ ''**tl;dr:** '' @ oneSentenceSummary @ nl2) @ body"
  unfolding withTldr_def by (rule js_replace_prefix)

lemma generateOneSentenceSummary_cacheFiles:
  "cacheFiles (snd (generateOneSentenceSummary e monthFile fullSummary w)) p = cacheFiles w p \<or>
   (p = oneSentenceCachePath e monthFile \<and>
    (\<exists>d. cacheFiles (snd (generateOneSentenceSummary e monthFile fullSummary w)) p =
           Some (Parsed d) \<and> cd_summary d = None))"
proof -
  obtain c w1 where c: "cachedOneSentence e monthFile w = (c, w1)"
    by (metis prod.collapse)
  with cachedOneSentence_world [of e monthFile w] have w1: "cacheFiles w1 = cacheFiles w"
    by simp
  obtain r w2 where cr: "create e (oneSentenceRequest fullSummary) w1 = (r, w2)"
    by (metis prod.collapse)
  with create_world [of e "oneSentenceRequest fullSummary" w1] w1
  have w2: "cacheFiles w2 = cacheFiles w"
    by simp
  show ?thesis
    using w1 w2
    by (auto simp: generateOneSentenceSummary_def c cr Date_now_def Let_def
             split: sum.splits option.splits)
qed

lemma finishSummary_result:
  "fst (finishSummary e monthFile monthName formattedSummary w) =
     withTldr monthName
       (fst (generateOneSentenceSummary e monthFile formattedSummary w)) formattedSummary"
  by (simp add: finishSummary_def Let_def split_def)

lemma finishSummary_world:
  "snd (finishSummary e monthFile monthName formattedSummary w) =
     saveToCache e monthFile formattedSummary
       (snd (generateOneSentenceSummary e monthFile formattedSummary w))"
  by (simp add: finishSummary_def Let_def split_def)

lemma finishSummary_cached:
  "\<exists>d. cacheFiles (snd (finishSummary e monthFile monthName formattedSummary w))
          (getCacheFilePath e monthFile) = Some (Parsed d) \<and>
       cd_summary d = Some formattedSummary"
  by (simp add: finishSummary_world saveToCache_fields)

lemma createSummary_world:
  "cacheFiles (snd (createSummary e userContent w)) = cacheFiles w \<and>
   ticks (snd (createSummary e userContent w)) = ticks w"
  using create_world [of e _ w]
  by (auto simp: createSummary_def split: sum.splits)

lemma createSummary_Inr:
  assumes "getSystemPrompt e = Inr systemPrompt"
      and "createSummary e userContent w = (Inr c, w1)"
  shows "w1 = w\<lparr>calls := calls w @ [summaryRequest systemPrompt userContent]\<rparr> \<and>
         respond e (calls w) (summaryRequest systemPrompt userContent) = Content c"
  using assms
  by (auto simp: createSummary_def create_def Let_def split: completion.splits)

text \<open>
  The quarter loop, when it runs to the end: one request per quarter, in order, each
  answered with a content; the summaries are the trimmed contents, in order.
\<close>

lemma summarizeQuarters_success:
  assumes "getSystemPrompt e = Inr systemPrompt"
      and "summarizeQuarters e monthName qs acc w = (Inr out, w')"
  shows "calls w' = calls w @
           map (\<lambda>(quarterName, quarter).
                  summaryRequest systemPrompt
                    (''# '' @ monthName @ '' ('' @ capitalize quarterName @ '' Quarter)'' @ nl2 @ quarter)) qs \<and>
         cacheFiles w' = cacheFiles w \<and> ticks w' = ticks w \<and>
         length out = length acc + length qs \<and> take (length acc) out = acc"
  using assms(2)
proof (induction qs arbitrary: acc w)
  case Nil
  then show ?case by simp
next
  case (Cons q qs)
  obtain quarterName quarter where q: "q = (quarterName, quarter)"
    by (cases q)
  let ?user = "''# '' @ monthName @ '' ('' @ capitalize quarterName @ '' Quarter)'' @ nl2 @ quarter"
  obtain r w1 where cs: "createSummary e ?user w = (r, w1)"
    by (metis prod.collapse)
  from Cons.prems obtain c where r: "r = Inr c"
    unfolding q summarizeQuarters.simps cs by (cases r) auto
  from createSummary_Inr [OF assms(1) cs [unfolded r]]
  have w1: "w1 = w\<lparr>calls := calls w @ [summaryRequest systemPrompt ?user]\<rparr>"
    by simp
  from Cons.prems obtain s where t: "content_trim c = Inr s"
    unfolding q summarizeQuarters.simps cs r by (cases "content_trim c") auto
  from Cons.prems have rest: "summarizeQuarters e monthName qs (acc @ [s]) w1 = (Inr out, w')"
    unfolding q summarizeQuarters.simps cs r by (simp add: t)
  from Cons.IH [OF rest] have
    "calls w' = calls w1 @
           map (\<lambda>(quarterName, quarter).
                  summaryRequest systemPrompt
                    (''# '' @ monthName @ '' ('' @ capitalize quarterName @ '' Quarter)'' @ nl2 @ quarter)) qs"
    "cacheFiles w' = cacheFiles w1" "ticks w' = ticks w1"
    "length out = length (acc @ [s]) + length qs" "take (length (acc @ [s])) out = acc @ [s]"
    by simp_all
  moreover from this(5) have "take (length acc) out = acc"
    by (metis append_eq_conv_conj take_take length_append le_add1 min.absorb1)
  ultimately show ?case
    by (simp add: w1 q)
qed

lemma combineFourSummaries_result:
  "fst (combineFourSummaries e summaries monthName w) =
     (case respond e (calls w) (combineFourRequest summaries monthName) of
        Content (Some c) \<Rightarrow> trim c
      | _ \<Rightarrow> js_join nl2 summaries) \<and>
   calls (snd (combineFourSummaries e summaries monthName w)) =
     calls w @ [combineFourRequest summaries monthName] \<and>
   cacheFiles (snd (combineFourSummaries e summaries monthName w)) = cacheFiles w"
  by (auto simp: combineFourSummaries_def create_def content_trim_def Let_def
           split: completion.splits option.splits)

lemma capitalize_quarterNames:
  "map capitalize quarterNames = [''First'', ''Second'', ''Third'', ''Fourth'']"
  by (simp add: quarterNames_def capitalize_def toUpperCase_char_def)

lemma splitMonthContentIntoFour_length: "length (splitMonthContentIntoFour content) = 4"
  by (simp add: splitMonthContentIntoFour_def Let_def)

lemma list_of_length_4:
  assumes "length xs = 4"
  shows "xs = [xs ! 0, xs ! 1, xs ! 2, xs ! 3]"
proof -
  from assms obtain a b c d where "xs = [a, b, c, d]"
    by (auto simp: numeral_eq_Suc length_Suc_conv)
  then show ?thesis by simp
qed

lemma fourPartAttempt_success:
  assumes "summarizeQuarters e monthName (zip quarterNames (splitMonthContentIntoFour content)) [] w
             = (Inr quarterSummaries, w4)"
  shows "fourPartAttempt e monthFile monthName content w =
           (Inr (fst (finishSummary e monthFile monthName
                   (heading monthName @ fst (combineFourSummaries e quarterSummaries monthName w4))
                   (snd (combineFourSummaries e quarterSummaries monthName w4)))),
            snd (finishSummary e monthFile monthName
                   (heading monthName @ fst (combineFourSummaries e quarterSummaries monthName w4))
                   (snd (combineFourSummaries e quarterSummaries monthName w4))))"
  by (simp add: fourPartAttempt_def Let_def assms split_def)

lemma escalation_run:
  assumes "textFiles e (path_join outputDir monthFile) = Some content"
      and "getCachedSummary e monthFile w = (None, w1)"
      and "wholeAttempt e monthFile (monthNameOf e monthFile) content w1 = (Inl err1, w2)"
      and "isTokenLimit (message err1)"
      and "twoPartAttempt e monthFile (monthNameOf e monthFile) content w2 = (Inl err2, w3)"
      and "isTokenLimit (message err2)"
  shows "generateMonthSummary e monthFile outputDir w =
           (case fourPartAttempt e monthFile (monthNameOf e monthFile) content w3 of
              (Inr summaryText, w4) \<Rightarrow> (Inr summaryText, w4)
            | (Inl fourPartError, w4) \<Rightarrow>
                (Inr (errorBlock (monthNameOf e monthFile) fourPartError), w4))"
  using assms by (simp add: generateMonthSummary_def Let_def)

lemma combineFourSummaries_world:
  "snd (combineFourSummaries e summaries monthName w) =
     w\<lparr>calls := calls w @ [combineFourRequest summaries monthName]\<rparr>"
  by (auto simp: combineFourSummaries_def create_def Let_def
           split: completion.splits sum.splits)

lemma wholeAttempt_throws:
  assumes "getSystemPrompt e = Inr systemPrompt"
      and "respond e (calls w) (summaryRequest systemPrompt (''# '' @ monthName @ nl2 @ content))
           = Throws msg"
  shows "wholeAttempt e monthFile monthName content w =
           (Inl (JsError msg),
            w\<lparr>calls := calls w @ [summaryRequest systemPrompt (''# '' @ monthName @ nl2 @ content)]\<rparr>)"
  unfolding wholeAttempt_def createSummary_throws [OF assms] by simp

lemma twoPartAttempt_first_throws:
  assumes "getSystemPrompt e = Inr systemPrompt"
      and "respond e (calls w)
             (summaryRequest systemPrompt
                (''# '' @ monthName @ '' (First Half)'' @ nl2 @ fst (splitMonthContent content)))
           = Throws msg"
  shows "twoPartAttempt e monthFile monthName content w =
           (Inl (JsError msg),
            w\<lparr>calls := calls w @
               [summaryRequest systemPrompt
                  (''# '' @ monthName @ '' (First Half)'' @ nl2 @ fst (splitMonthContent content))]\<rparr>)"
  unfolding twoPartAttempt_def Let_def split_def createSummary_throws [OF assms] by simp

lemma twoPartAttempt_second_throws:
  assumes "getSystemPrompt e = Inr systemPrompt"
      and "respond e (calls w)
             (summaryRequest systemPrompt
                (''# '' @ monthName @ '' (First Half)'' @ nl2 @ fst (splitMonthContent content)))
           = Content c1"
      and "respond e
             (calls w @
               [summaryRequest systemPrompt
                  (''# '' @ monthName @ '' (First Half)'' @ nl2 @ fst (splitMonthContent content))])
             (summaryRequest systemPrompt
                (''# '' @ monthName @ '' (Second Half)'' @ nl2 @ snd (splitMonthContent content)))
           = Throws msg"
  shows "twoPartAttempt e monthFile monthName content w =
           (Inl (JsError msg),
            w\<lparr>calls := calls w @
               [summaryRequest systemPrompt
                  (''# '' @ monthName @ '' (First Half)'' @ nl2 @ fst (splitMonthContent content)),
                summaryRequest systemPrompt
                  (''# '' @ monthName @ '' (Second Half)'' @ nl2 @ snd (splitMonthContent content))]\<rparr>)"
proof -
  let ?first = "summaryRequest systemPrompt
      (''# '' @ monthName @ '' (First Half)'' @ nl2 @ fst (splitMonthContent content))"
  let ?w1 = "w\<lparr>calls := calls w @ [?first]\<rparr>"
  from assms(3) have "respond e (calls ?w1)
      (summaryRequest systemPrompt
         (''# '' @ monthName @ '' (Second Half)'' @ nl2 @ snd (splitMonthContent content)))
      = Throws msg"
    by simp
  note second = createSummary_throws [OF assms(1) this]
  show ?thesis
    unfolding twoPartAttempt_def Let_def split_def createSummary_content [OF assms(1,2)]
      fst_conv snd_conv sum.case second
    by simp
qed

lemma summarizeQuarters_answered:
  assumes "getSystemPrompt e = Inr systemPrompt"
      and "respond e (calls w)
             (summaryRequest systemPrompt
                (''# '' @ monthName @ '' ('' @ capitalize quarterName @ '' Quarter)'' @ nl2 @ quarter))
           = Content (Some a)"
  shows "summarizeQuarters e monthName ((quarterName, quarter) # rest) acc w =
           summarizeQuarters e monthName rest (acc @ [trim a])
             (w\<lparr>calls := calls w @
                [summaryRequest systemPrompt
                   (''# '' @ monthName @ '' ('' @ capitalize quarterName @ '' Quarter)'' @ nl2 @ quarter)]\<rparr>)"
  unfolding summarizeQuarters.simps createSummary_content [OF assms]
  by (simp add: content_trim_def)


lemma summarizeQuarters_four:
  assumes "getSystemPrompt e = Inr systemPrompt"
      and "respond e (calls w)
             (summaryRequest systemPrompt (''# '' @ monthName @ '' (First Quarter)'' @ nl2 @ q1))
           = Content (Some a1)"
      and "respond e
             (calls w @
               [summaryRequest systemPrompt (''# '' @ monthName @ '' (First Quarter)'' @ nl2 @ q1)])
             (summaryRequest systemPrompt (''# '' @ monthName @ '' (Second Quarter)'' @ nl2 @ q2))
           = Content (Some a2)"
      and "respond e
             (calls w @
               [summaryRequest systemPrompt (''# '' @ monthName @ '' (First Quarter)'' @ nl2 @ q1),
                summaryRequest systemPrompt (''# '' @ monthName @ '' (Second Quarter)'' @ nl2 @ q2)])
             (summaryRequest systemPrompt (''# '' @ monthName @ '' (Third Quarter)'' @ nl2 @ q3))
           = Content (Some a3)"
      and "respond e
             (calls w @
               [summaryRequest systemPrompt (''# '' @ monthName @ '' (First Quarter)'' @ nl2 @ q1),
                summaryRequest systemPrompt (''# '' @ monthName @ '' (Second Quarter)'' @ nl2 @ q2),
                summaryRequest systemPrompt (''# '' @ monthName @ '' (Third Quarter)'' @ nl2 @ q3)])
             (summaryRequest systemPrompt (''# '' @ monthName @ '' (Fourth Quarter)'' @ nl2 @ q4))
           = Content (Some a4)"
  shows "summarizeQuarters e monthName (zip quarterNames [q1, q2, q3, q4]) [] w =
           (Inr [trim a1, trim a2, trim a3, trim a4],
            w\<lparr>calls := calls w @
               [summaryRequest systemPrompt (''# '' @ monthName @ '' (First Quarter)'' @ nl2 @ q1),
                summaryRequest systemPrompt (''# '' @ monthName @ '' (Second Quarter)'' @ nl2 @ q2),
                summaryRequest systemPrompt (''# '' @ monthName @ '' (Third Quarter)'' @ nl2 @ q3),
                summaryRequest systemPrompt (''# '' @ monthName @ '' (Fourth Quarter)'' @ nl2 @ q4)]\<rparr>)"
proof -
  define r1 where "r1 = summaryRequest systemPrompt
      (''# '' @ monthName @ '' ('' @ capitalize ''first'' @ '' Quarter)'' @ nl2 @ q1)"
  define r2 where "r2 = summaryRequest systemPrompt
      (''# '' @ monthName @ '' ('' @ capitalize ''second'' @ '' Quarter)'' @ nl2 @ q2)"
  define r3 where "r3 = summaryRequest systemPrompt
      (''# '' @ monthName @ '' ('' @ capitalize ''third'' @ '' Quarter)'' @ nl2 @ q3)"
  define r4 where "r4 = summaryRequest systemPrompt
      (''# '' @ monthName @ '' ('' @ capitalize ''fourth'' @ '' Quarter)'' @ nl2 @ q4)"
  have caps: "capitalize ''first'' = ''First''" "capitalize ''second'' = ''Second''"
      "capitalize ''third'' = ''Third''" "capitalize ''fourth'' = ''Fourth''"
    using capitalize_quarterNames by (simp_all add: quarterNames_def)
  have eq: "r1 = summaryRequest systemPrompt (''# '' @ monthName @ '' (First Quarter)'' @ nl2 @ q1)"
      "r2 = summaryRequest systemPrompt (''# '' @ monthName @ '' (Second Quarter)'' @ nl2 @ q2)"
      "r3 = summaryRequest systemPrompt (''# '' @ monthName @ '' (Third Quarter)'' @ nl2 @ q3)"
      "r4 = summaryRequest systemPrompt (''# '' @ monthName @ '' (Fourth Quarter)'' @ nl2 @ q4)"
    by (simp_all add: r1_def r2_def r3_def r4_def caps)
  let ?w1 = "w\<lparr>calls := calls w @ [r1]\<rparr>"
  let ?w2 = "?w1\<lparr>calls := calls ?w1 @ [r2]\<rparr>"
  let ?w3 = "?w2\<lparr>calls := calls ?w2 @ [r3]\<rparr>"
  let ?w4 = "?w3\<lparr>calls := calls ?w3 @ [r4]\<rparr>"
  have a1: "respond e (calls w) r1 = Content (Some a1)"
    using assms(2) unfolding eq by simp
  have a2: "respond e (calls ?w1) r2 = Content (Some a2)"
    using assms(3) unfolding eq by simp
  have a3: "respond e (calls ?w2) r3 = Content (Some a3)"
    using assms(4) unfolding eq by simp
  have a4: "respond e (calls ?w3) r4 = Content (Some a4)"
    using assms(5) unfolding eq by simp
  have zipped: "zip quarterNames [q1, q2, q3, q4] =
      [(''first'', q1), (''second'', q2), (''third'', q3), (''fourth'', q4)]"
    by (simp add: quarterNames_def)
  have "summarizeQuarters e monthName (zip quarterNames [q1, q2, q3, q4]) [] w =
      summarizeQuarters e monthName [(''second'', q2), (''third'', q3), (''fourth'', q4)]
        ([] @ [trim a1]) ?w1"
    unfolding zipped
    by (rule summarizeQuarters_answered [OF assms(1) a1 [unfolded r1_def], folded r1_def])
  also have "\<dots> = summarizeQuarters e monthName [(''third'', q3), (''fourth'', q4)]
        (([] @ [trim a1]) @ [trim a2]) ?w2"
    by (rule summarizeQuarters_answered [OF assms(1) a2 [unfolded r2_def], folded r2_def])
  also have "\<dots> = summarizeQuarters e monthName [(''fourth'', q4)]
        ((([] @ [trim a1]) @ [trim a2]) @ [trim a3]) ?w3"
    by (rule summarizeQuarters_answered [OF assms(1) a3 [unfolded r3_def], folded r3_def])
  also have "\<dots> = summarizeQuarters e monthName []
        (((([] @ [trim a1]) @ [trim a2]) @ [trim a3]) @ [trim a4]) ?w4"
    by (rule summarizeQuarters_answered [OF assms(1) a4 [unfolded r4_def], folded r4_def])
  also have "\<dots> = (Inr [trim a1, trim a2, trim a3, trim a4],
      w\<lparr>calls := calls w @ [r1, r2, r3, r4]\<rparr>)"
    by simp
  finally show ?thesis
    by (simp only: eq)
qed


text \<open>
  C1 (as amended). Let the month have no valid cache entry, let \<open>prompt.md\<close> be
  readable, let the whole-document request fail with a size-limit error, and let the
  two-half attempt fail with a size-limit error too (at the first-half request, or at
  the second-half request after the first half was answered). Then
  \<open>generateMonthSummary\<close> splits the content of the whole document (not the halves)
  into four quarters. When the four quarter requests, sent in order, each return a
  content, it combines the four trimmed answers with one combine request, falling back
  to the four summaries joined by blank lines when that request fails; it caches the
  combined text under the month heading and returns that same text with the
  one-sentence digest spliced in after the heading. The requests sent are the whole
  document, the halves tried, the four quarters, the combine request and at most the
  digest request.
\<close>

theorem four_part_escalation:
  fixes e :: env and w w5 :: world and sent :: "request list"
    and monthFile outputDir content systemPrompt m1 m2 a1 a2 a3 a4 :: string
    and mn combined oneSentence :: string and quarters summaries :: "string list"
    and wholeReq firstReq secondReq r1 r2 r3 r4 combineReq :: request
  defines "mn \<equiv> monthNameOf e monthFile"
    and "quarters \<equiv> splitMonthContentIntoFour content"
    and "wholeReq \<equiv> summaryRequest systemPrompt (''# '' @ mn @ nl2 @ content)"
    and "firstReq \<equiv> summaryRequest systemPrompt
           (''# '' @ mn @ '' (First Half)'' @ nl2 @ fst (splitMonthContent content))"
    and "secondReq \<equiv> summaryRequest systemPrompt
           (''# '' @ mn @ '' (Second Half)'' @ nl2 @ snd (splitMonthContent content))"
    and "r1 \<equiv> summaryRequest systemPrompt (''# '' @ mn @ '' (First Quarter)'' @ nl2 @ quarters ! 0)"
    and "r2 \<equiv> summaryRequest systemPrompt (''# '' @ mn @ '' (Second Quarter)'' @ nl2 @ quarters ! 1)"
    and "r3 \<equiv> summaryRequest systemPrompt (''# '' @ mn @ '' (Third Quarter)'' @ nl2 @ quarters ! 2)"
    and "r4 \<equiv> summaryRequest systemPrompt (''# '' @ mn @ '' (Fourth Quarter)'' @ nl2 @ quarters ! 3)"
    and "summaries \<equiv> [trim a1, trim a2, trim a3, trim a4]"
    and "combineReq \<equiv> combineFourRequest summaries mn"
    and "combined \<equiv>
           (case respond e (calls w @ sent @ [r1, r2, r3, r4]) combineReq of
              Content (Some c) \<Rightarrow> trim c
            | _ \<Rightarrow> js_join nl2 summaries)"
    and "w5 \<equiv> (snd (getCachedSummary e monthFile w))
           \<lparr>calls := calls w @ sent @ [r1, r2, r3, r4, combineReq]\<rparr>"
    and "oneSentence \<equiv>
           fst (generateOneSentenceSummary e monthFile (''## '' @ mn @ nl2 @ combined) w5)"
  assumes "textFiles e (path_join outputDir monthFile) = Some content"
      and "fst (getCachedSummary e monthFile w) = None"
      and "getSystemPrompt e = Inr systemPrompt"
      and "respond e (calls w) wholeReq = Throws m1"
      and "isTokenLimit m1"
      and "(respond e (calls w @ [wholeReq]) firstReq = Throws m2 \<and>
            sent = [wholeReq, firstReq]) \<or>
           (\<exists>c1. respond e (calls w @ [wholeReq]) firstReq = Content c1 \<and>
                 respond e (calls w @ [wholeReq, firstReq]) secondReq = Throws m2 \<and>
                 sent = [wholeReq, firstReq, secondReq])"
      and "isTokenLimit m2"
      and "respond e (calls w @ sent) r1 = Content (Some a1)"
      and "respond e (calls w @ sent @ [r1]) r2 = Content (Some a2)"
      and "respond e (calls w @ sent @ [r1, r2]) r3 = Content (Some a3)"
      and "respond e (calls w @ sent @ [r1, r2, r3]) r4 = Content (Some a4)"
  shows "fst (generateMonthSummary e monthFile outputDir w) =
           Inr (js_replace (''## '' @ mn @ nl2)
                  (''## '' @ mn @ nl2 @ ''**tl;dr:** '' @ oneSentence @ nl2)
                  (''## '' @ mn @ nl2 @ combined)) \<and>
         js_replace (''## '' @ mn @ nl2)
             (''## '' @ mn @ nl2 @ ''**tl;dr:** '' @ oneSentence @ nl2)
             (''## '' @ mn @ nl2 @ combined) =
           get_substitution (''## '' @ mn @ nl2) [] combined
             (''## '' @ mn @ nl2 @ ''**tl;dr:** '' @ oneSentence @ nl2) @ combined \<and>
         (\<exists>d. cacheFiles (snd (generateMonthSummary e monthFile outputDir w))
                 (getCacheFilePath e monthFile) = Some (Parsed d) \<and>
              cd_summary d = Some (''## '' @ mn @ nl2 @ combined)) \<and>
         (calls (snd (generateMonthSummary e monthFile outputDir w)) =
            calls w @ sent @ [r1, r2, r3, r4, combineReq] \<or>
          calls (snd (generateMonthSummary e monthFile outputDir w)) =
            calls w @ sent @ [r1, r2, r3, r4, combineReq] @
              [oneSentenceRequest (''## '' @ mn @ nl2 @ combined)])"
proof -
  from assms(16) obtain w1 where
    miss: "getCachedSummary e monthFile w = (None, w1)" and calls1: "calls w1 = calls w"
    by (rule getCachedSummary_miss)
  have w1: "snd (getCachedSummary e monthFile w) = w1"
    by (simp add: miss)
  let ?w2 = "w1\<lparr>calls := calls w1 @ [wholeReq]\<rparr>"
  let ?w3 = "w1\<lparr>calls := calls w @ sent\<rparr>"
  let ?w4 = "?w3\<lparr>calls := calls ?w3 @ [r1, r2, r3, r4]\<rparr>"
  have "respond e (calls w1) wholeReq = Throws m1"
    using assms(18) by (simp add: calls1)
  from wholeAttempt_throws [OF assms(17) this [unfolded wholeReq_def], of monthFile]
  have whole: "wholeAttempt e monthFile mn content w1 = (Inl (JsError m1), ?w2)"
    by (simp only: wholeReq_def)
  have halves: "twoPartAttempt e monthFile mn content ?w2 = (Inl (JsError m2), ?w3)"
    using assms(20)
  proof (elim disjE conjE exE)
    assume r: "respond e (calls w @ [wholeReq]) firstReq = Throws m2"
      and s: "sent = [wholeReq, firstReq]"
    from r have "respond e (calls ?w2) firstReq = Throws m2"
      by (simp add: calls1)
    from twoPartAttempt_first_throws [OF assms(17) this [unfolded firstReq_def], of monthFile]
    have "twoPartAttempt e monthFile mn content ?w2 =
        (Inl (JsError m2), ?w2\<lparr>calls := calls ?w2 @ [firstReq]\<rparr>)"
      by (simp only: firstReq_def)
    then show ?thesis
      by (simp add: s calls1)
  next
    fix c1
    assume f: "respond e (calls w @ [wholeReq]) firstReq = Content c1"
      and r: "respond e (calls w @ [wholeReq, firstReq]) secondReq = Throws m2"
      and s: "sent = [wholeReq, firstReq, secondReq]"
    from f have f': "respond e (calls ?w2) firstReq = Content c1"
      by (simp add: calls1)
    from r have r': "respond e (calls ?w2 @ [firstReq]) secondReq = Throws m2"
      by (simp add: calls1)
    from twoPartAttempt_second_throws
      [OF assms(17) f' [unfolded firstReq_def] r' [unfolded firstReq_def secondReq_def],
       of monthFile]
    have "twoPartAttempt e monthFile mn content ?w2 =
        (Inl (JsError m2), ?w2\<lparr>calls := calls ?w2 @ [firstReq, secondReq]\<rparr>)"
      by (simp only: firstReq_def secondReq_def)
    then show ?thesis
      by (simp add: s calls1)
  qed
  have four: "quarters = [quarters ! 0, quarters ! 1, quarters ! 2, quarters ! 3]"
    unfolding quarters_def
    by (rule list_of_length_4) (rule splitMonthContentIntoFour_length)
  have q1: "respond e (calls ?w3) r1 = Content (Some a1)"
    using assms(22) by simp
  have q2: "respond e (calls ?w3 @ [r1]) r2 = Content (Some a2)"
    using assms(23) by simp
  have q3: "respond e (calls ?w3 @ [r1, r2]) r3 = Content (Some a3)"
    using assms(24) by simp
  have q4: "respond e (calls ?w3 @ [r1, r2, r3]) r4 = Content (Some a4)"
    using assms(25) by simp
  from summarizeQuarters_four
    [OF assms(17) q1 [unfolded r1_def] q2 [unfolded r1_def r2_def]
        q3 [unfolded r1_def r2_def r3_def] q4 [unfolded r1_def r2_def r3_def r4_def]]
  have "summarizeQuarters e mn
      (zip quarterNames [quarters ! 0, quarters ! 1, quarters ! 2, quarters ! 3]) [] ?w3 =
      (Inr summaries, ?w4)"
    by (simp only: r1_def r2_def r3_def r4_def summaries_def)
  then have loop: "summarizeQuarters e mn
      (zip quarterNames (splitMonthContentIntoFour content)) [] ?w3 = (Inr summaries, ?w4)"
    using four by (simp only: quarters_def)
  have hist: "calls ?w4 = calls w @ sent @ [r1, r2, r3, r4]"
    by simp
  have combined: "fst (combineFourSummaries e summaries mn ?w4) = combined"
    unfolding combined_def combineReq_def hist [symmetric]
    using combineFourSummaries_result [of e summaries mn ?w4] by simp
  have world5: "snd (combineFourSummaries e summaries mn ?w4) = w5"
    unfolding combineFourSummaries_world w5_def w1 combineReq_def by simp
  let ?formatted = "heading mn @ combined"
  let ?fin = "finishSummary e monthFile mn ?formatted w5"
  have w4: "?w4 = w1\<lparr>calls := calls w @ sent @ [r1, r2, r3, r4]\<rparr>"
    by simp
  note combined' = combined [unfolded w4 mn_def]
  note world5' = world5 [unfolded w4 mn_def]
  have run: "generateMonthSummary e monthFile outputDir w = (Inr (fst ?fin), snd ?fin)"
    unfolding escalation_run
      [OF assms(15) miss whole [unfolded mn_def] _ halves [unfolded mn_def], simplified,
       OF assms(19) assms(21)]
      fourPartAttempt_success [OF loop [unfolded mn_def]]
    by (simp add: combined' world5' mn_def)
  have h0: "heading mn = ''## '' @ mn @ nl2"
    by (simp add: heading_def)
  have h: "heading mn @ x = ''## '' @ mn @ nl2 @ x" for x
    by (simp add: heading_def)
  have result: "fst ?fin =
      js_replace (''## '' @ mn @ nl2)
        (''## '' @ mn @ nl2 @ ''**tl;dr:** '' @ oneSentence @ nl2)
        (''## '' @ mn @ nl2 @ combined)"
    by (simp add: finishSummary_result withTldr_def heading_def oneSentence_def)
  have expand: "js_replace (''## '' @ mn @ nl2)
        (''## '' @ mn @ nl2 @ ''**tl;dr:** '' @ oneSentence @ nl2)
        (''## '' @ mn @ nl2 @ combined) =
      get_substitution (''## '' @ mn @ nl2) [] combined
        (''## '' @ mn @ nl2 @ ''**tl;dr:** '' @ oneSentence @ nl2) @ combined"
    using js_replace_prefix [of "''## '' @ mn @ nl2" _ combined] by simp
  from finishSummary_cached [of e monthFile mn ?formatted w5]
  have cached: "\<exists>d. cacheFiles (snd ?fin) (getCacheFilePath e monthFile) = Some (Parsed d) \<and>
      cd_summary d = Some (''## '' @ mn @ nl2 @ combined)"
    unfolding h .
  have calls5: "calls w5 = calls w @ sent @ [r1, r2, r3, r4, combineReq]"
    unfolding w5_def by simp
  have "calls (snd ?fin) = calls (snd (generateOneSentenceSummary e monthFile ?formatted w5))"
    by (simp add: finishSummary_world saveToCache_fields)
  with generateOneSentenceSummary_calls [of e monthFile ?formatted w5]
  have sent_all: "calls (snd ?fin) = calls w @ sent @ [r1, r2, r3, r4, combineReq] \<or>
      calls (snd ?fin) = calls w @ sent @ [r1, r2, r3, r4, combineReq] @
        [oneSentenceRequest (''## '' @ mn @ nl2 @ combined)]"
    unfolding calls5 h by simp
  from result expand cached sent_all show ?thesis
    unfolding run fst_conv snd_conv by blast
qed


text \<open>
  The service refuses the whole document and the first half for their size, answers the
  four quarters, fails on the combine request and answers the digest request: the four
  summaries are joined by blank lines, cached under the heading and returned with the
  digest.
\<close>

theorem four_part_escalation_witness:
  "fst (generateMonthSummary
          (script_env [Throws ''Input tokens exceed the limit'', Throws ''token limit reached'',
             Content (Some ''Q1 summary.''), Content (Some ''Q2 summary.''),
             Content (Some ''Q3 summary.''), Content (Some '' Q4 summary. ''),
             Throws ''combine failed'', Content (Some ''One sentence.'')])
          ''2021-02.md'' ''/app/output'' empty_world) =
     Inr ''## February 2021\<newline>\<newline>**tl;dr:** One sentence.\<newline>\<newline>Q1 summary.\<newline>\<newline>Q2 summary.\<newline>\<newline>Q3 summary.\<newline>\<newline>Q4 summary.'' \<and>
   (\<exists>d. cacheFiles (snd (generateMonthSummary
          (script_env [Throws ''Input tokens exceed the limit'', Throws ''token limit reached'',
             Content (Some ''Q1 summary.''), Content (Some ''Q2 summary.''),
             Content (Some ''Q3 summary.''), Content (Some '' Q4 summary. ''),
             Throws ''combine failed'', Content (Some ''One sentence.'')])
          ''2021-02.md'' ''/app/output'' empty_world)) ''/app/cache/2021-02.json'' = Some (Parsed d) \<and>
        cd_summary d =
          Some ''## February 2021\<newline>\<newline>Q1 summary.\<newline>\<newline>Q2 summary.\<newline>\<newline>Q3 summary.\<newline>\<newline>Q4 summary.'')"
proof -
  let ?e = "script_env [Throws ''Input tokens exceed the limit'', Throws ''token limit reached'',
             Content (Some ''Q1 summary.''), Content (Some ''Q2 summary.''),
             Content (Some ''Q3 summary.''), Content (Some '' Q4 summary. ''),
             Throws ''combine failed'', Content (Some ''One sentence.'')]"
  let ?content = "''## Feb 1\<newline>hello\<newline>## Feb 2\<newline>bye''"
  let ?mn = "monthNameOf ?e ''2021-02.md''"
  let ?whole = "summaryRequest ''Summarize.'' (''# '' @ ?mn @ nl2 @ ?content)"
  let ?first = "summaryRequest ''Summarize.''
      (''# '' @ ?mn @ '' (First Half)'' @ nl2 @ fst (splitMonthContent ?content))"
  let ?second = "summaryRequest ''Summarize.''
      (''# '' @ ?mn @ '' (Second Half)'' @ nl2 @ snd (splitMonthContent ?content))"
  let ?r1 = "summaryRequest ''Summarize.''
      (''# '' @ ?mn @ '' (First Quarter)'' @ nl2 @ splitMonthContentIntoFour ?content ! 0)"
  let ?r2 = "summaryRequest ''Summarize.''
      (''# '' @ ?mn @ '' (Second Quarter)'' @ nl2 @ splitMonthContentIntoFour ?content ! 1)"
  let ?r3 = "summaryRequest ''Summarize.''
      (''# '' @ ?mn @ '' (Third Quarter)'' @ nl2 @ splitMonthContentIntoFour ?content ! 2)"
  let ?r4 = "summaryRequest ''Summarize.''
      (''# '' @ ?mn @ '' (Fourth Quarter)'' @ nl2 @ splitMonthContentIntoFour ?content ! 3)"
  let ?sent = "[?whole, ?first]"
  have whole: "respond ?e (calls empty_world) ?whole = Throws ''Input tokens exceed the limit''"
    by (simp add: script_env_fields empty_world_fields)
  have sl1: "isTokenLimit ''Input tokens exceed the limit''"
    by code_simp
  have halves: "(respond ?e (calls empty_world @ [?whole]) ?first = Throws ''token limit reached'' \<and>
        ?sent = [?whole, ?first]) \<or>
      (\<exists>c1. respond ?e (calls empty_world @ [?whole]) ?first = Content c1 \<and>
         respond ?e (calls empty_world @ [?whole, ?first]) ?second = Throws ''token limit reached'' \<and>
         ?sent = [?whole, ?first, ?second])"
    by (simp add: script_env_fields empty_world_fields)
  have sl2: "isTokenLimit ''token limit reached''"
    by code_simp
  have q1: "respond ?e (calls empty_world @ ?sent) ?r1 = Content (Some ''Q1 summary.'')"
    by (simp add: script_env_fields empty_world_fields)
  have q2: "respond ?e (calls empty_world @ ?sent @ [?r1]) ?r2 = Content (Some ''Q2 summary.'')"
    by (simp add: script_env_fields empty_world_fields)
  have q3: "respond ?e (calls empty_world @ ?sent @ [?r1, ?r2]) ?r3 = Content (Some ''Q3 summary.'')"
    by (simp add: script_env_fields empty_world_fields)
  have q4: "respond ?e (calls empty_world @ ?sent @ [?r1, ?r2, ?r3]) ?r4 =
      Content (Some '' Q4 summary. '')"
    by (simp add: script_env_fields empty_world_fields)
  note inst = four_part_escalation
    [OF script_env_document empty_world_miss script_env_prompt whole sl1 halves sl2 q1 q2 q3 q4]
  have trims: "trim ''Q1 summary.'' = ''Q1 summary.''" "trim ''Q2 summary.'' = ''Q2 summary.''"
      "trim ''Q3 summary.'' = ''Q3 summary.''" "trim '' Q4 summary. '' = ''Q4 summary.''"
    by code_simp+
  have combine: "respond ?e (calls empty_world @ ?sent @ [?r1, ?r2, ?r3, ?r4]) req =
      Throws ''combine failed''" for req
    by (simp add: script_env_fields empty_world_fields)
  from inst [THEN conjunct2, THEN conjunct2, THEN conjunct1]
  have cached: "\<exists>d. cacheFiles (snd (generateMonthSummary ?e ''2021-02.md'' ''/app/output'' empty_world))
          ''/app/cache/2021-02.json'' = Some (Parsed d) \<and>
        cd_summary d =
          Some ''## February 2021\<newline>\<newline>Q1 summary.\<newline>\<newline>Q2 summary.\<newline>\<newline>Q3 summary.\<newline>\<newline>Q4 summary.''"
    unfolding combine trims script_env_paths
    by (simp add: script_env_fields nl2_def)
  have result: "fst (generateMonthSummary ?e ''2021-02.md'' ''/app/output'' empty_world) =
     Inr ''## February 2021\<newline>\<newline>**tl;dr:** One sentence.\<newline>\<newline>Q1 summary.\<newline>\<newline>Q2 summary.\<newline>\<newline>Q3 summary.\<newline>\<newline>Q4 summary.''"
    by code_simp
  from result cached show ?thesis
    by blast
qed

text \<open>
  The service refuses the whole document and the first half for their size and then
  fails on the first quarter: the run returns the inline error block, caches nothing,
  and no quarter has been summarized.
\<close>

theorem quarter_failure_counterexample:
  "fst (wholeAttempt
          (script_env [Throws ''Input tokens exceed the limit'', Throws ''token limit reached'',
             Throws ''503 service unavailable''])
          ''2021-02.md'' ''February 2021'' ''## Feb 1\<newline>hello\<newline>## Feb 2\<newline>bye'' empty_world) =
     Inl (JsError ''Input tokens exceed the limit'') \<and>
   isTokenLimit ''Input tokens exceed the limit'' \<and>
   fst (twoPartAttempt
          (script_env [Throws ''Input tokens exceed the limit'', Throws ''token limit reached'',
             Throws ''503 service unavailable''])
          ''2021-02.md'' ''February 2021'' ''## Feb 1\<newline>hello\<newline>## Feb 2\<newline>bye''
          (snd (wholeAttempt
             (script_env [Throws ''Input tokens exceed the limit'', Throws ''token limit reached'',
                Throws ''503 service unavailable''])
             ''2021-02.md'' ''February 2021'' ''## Feb 1\<newline>hello\<newline>## Feb 2\<newline>bye'' empty_world))) =
     Inl (JsError ''token limit reached'') \<and>
   isTokenLimit ''token limit reached'' \<and>
   fst (generateMonthSummary
          (script_env [Throws ''Input tokens exceed the limit'', Throws ''token limit reached'',
             Throws ''503 service unavailable''])
          ''2021-02.md'' ''/app/output'' empty_world) =
     Inr ''## February 2021\<newline>\<newline>Error generating summary: 503 service unavailable'' \<and>
   cacheFiles (snd (generateMonthSummary
          (script_env [Throws ''Input tokens exceed the limit'', Throws ''token limit reached'',
             Throws ''503 service unavailable''])
          ''2021-02.md'' ''/app/output'' empty_world)) ''/app/cache/2021-02.json'' = None \<and>
   calls (snd (generateMonthSummary
          (script_env [Throws ''Input tokens exceed the limit'', Throws ''token limit reached'',
             Throws ''503 service unavailable''])
          ''2021-02.md'' ''/app/output'' empty_world)) =
     [[(''system'', ''Summarize.''),
       (''user'', ''# February 2021\<newline>\<newline>## Feb 1\<newline>hello\<newline>## Feb 2\<newline>bye'')],
      [(''system'', ''Summarize.''),
       (''user'', ''# February 2021 (First Half)\<newline>\<newline>## Feb 1\<newline>hello'')],
      [(''system'', ''Summarize.''),
       (''user'', ''# February 2021 (First Quarter)\<newline>\<newline>## Feb 1'')]]"
  by code_simp


section \<open>A corrupted cache file is as good as none\<close>

lemma sim_out_pair: "same_up_to_corruption v v' \<Longrightarrow> sim_out (r, v) (r, v')"
  by (simp add: sim_out_def)

lemma sim_out_case_prod:
  assumes "sim_out x y"
      and "\<And>r v v'. same_up_to_corruption v v' \<Longrightarrow> sim_out (f r v) (g r v')"
  shows "sim_out (case x of (r, v) \<Rightarrow> f r v) (case y of (r, v) \<Rightarrow> g r v)"
  using assms by (cases x; cases y) (simp add: sim_out_def)

lemma sim_out_case_sum:
  assumes "\<And>a. sim_out (f a) (f' a)" and "\<And>b. sim_out (g b) (g' b)"
  shows "sim_out (case s of Inl a \<Rightarrow> f a | Inr b \<Rightarrow> g b) (case s of Inl a \<Rightarrow> f' a | Inr b \<Rightarrow> g' b)"
  using assms by (cases s) simp_all

lemma sim_out_case_option:
  assumes "sim_out f f'" and "\<And>b. sim_out (g b) (g' b)"
  shows "sim_out (case s of None \<Rightarrow> f | Some b \<Rightarrow> g b) (case s of None \<Rightarrow> f' | Some b \<Rightarrow> g' b)"
  using assms by (cases s) simp_all

lemma sim_out_if:
  assumes "sim_out a a'" and "sim_out b b'"
  shows "sim_out (if c then a else b) (if c then a' else b')"
  using assms by simp

lemma sim_out_Let:
  assumes "\<And>x. sim_out (f x) (g x)"
  shows "sim_out (Let t f) (Let t g)"
  using assms by (simp add: Let_def)

lemma sim_readable:
  "same_up_to_corruption w w' \<Longrightarrow> readable (cacheFiles w p) = readable (cacheFiles w' p)"
  by (simp add: same_up_to_corruption_def)

lemma sim_fields:
  assumes "same_up_to_corruption w w'"
  shows "calls w = calls w'" and "ticks w = ticks w'"
  using assms by (simp_all add: same_up_to_corruption_def)

lemma sim_tick:
  assumes "same_up_to_corruption w w'"
  shows "same_up_to_corruption (w\<lparr>ticks := Suc (ticks w)\<rparr>) (w'\<lparr>ticks := Suc (ticks w')\<rparr>)"
  using assms by (simp add: same_up_to_corruption_def)

lemma sim_Date_now:
  assumes "same_up_to_corruption w w'"
  shows "sim_out (Date_now e w) (Date_now e w')"
  using sim_tick [OF assms] sim_fields [OF assms]
  by (simp add: sim_out_def Date_now_def)

lemma getCachedSummary_readable:
  "getCachedSummary e monthFile w =
     (case readable (cacheFiles w (getCacheFilePath e monthFile)) of
        None \<Rightarrow> (None, w)
      | Some cacheData \<Rightarrow>
          (case Date_now e w of
             (now, w1) \<Rightarrow>
               if js_gt (js_minus now (cd_timestamp cacheData)) maxAge then (None, w1)
               else (case cd_summary cacheData of
                       None \<Rightarrow> (None, w1)
                     | Some s \<Rightarrow>
                         if s = [] \<or> length s < 10 then (None, w1)
                         else (Some s, w1))))"
  by (simp add: getCachedSummary_def readable_def Let_def split: option.splits cacheFile.splits)

lemma sim_getCachedSummary:
  assumes "same_up_to_corruption w w'"
  shows "sim_out (getCachedSummary e monthFile w) (getCachedSummary e monthFile w')"
  unfolding getCachedSummary_readable sim_readable [OF assms]
  by (intro sim_out_case_option sim_out_case_prod sim_out_if sim_out_pair sim_Date_now assms
      | assumption)+

lemma cachedOneSentence_readable:
  "cachedOneSentence e monthFile w =
     (case readable (cacheFiles w (oneSentenceCachePath e monthFile)) of
        None \<Rightarrow> (None, w)
      | Some cacheData \<Rightarrow>
          (case Date_now e w of
             (now, w1) \<Rightarrow>
               if js_le (js_minus now (cd_timestamp cacheData)) maxAge \<and>
                  cd_oneSentenceSummary cacheData \<noteq> None \<and>
                  cd_oneSentenceSummary cacheData \<noteq> Some []
               then (cd_oneSentenceSummary cacheData, w1)
               else (None, w1)))"
  by (simp add: cachedOneSentence_def readable_def Let_def split: option.splits cacheFile.splits)

lemma sim_cachedOneSentence:
  assumes "same_up_to_corruption w w'"
  shows "sim_out (cachedOneSentence e monthFile w) (cachedOneSentence e monthFile w')"
  unfolding cachedOneSentence_readable sim_readable [OF assms]
  by (intro sim_out_case_option sim_out_case_prod sim_out_if sim_out_pair sim_Date_now assms
      | assumption)+

lemma sim_called:
  assumes "same_up_to_corruption w w'"
  shows "same_up_to_corruption (w\<lparr>calls := calls w @ [req]\<rparr>) (w'\<lparr>calls := calls w' @ [req]\<rparr>)"
  using assms by (simp add: same_up_to_corruption_def)

lemma sim_create:
  assumes "same_up_to_corruption w w'"
  shows "sim_out (create e req w) (create e req w')"
  using sim_called [OF assms, of req] sim_fields [OF assms]
  by (simp add: sim_out_def create_def Let_def split: completion.splits)

lemma sim_createSummary:
  assumes "same_up_to_corruption w w'"
  shows "sim_out (createSummary e userContent w) (createSummary e userContent w')"
  unfolding createSummary_def
  by (intro sim_out_case_sum sim_out_pair sim_create assms)

lemma sim_written:
  assumes "same_up_to_corruption w w'"
  shows "same_up_to_corruption (w\<lparr>cacheFiles := (cacheFiles w)(p \<mapsto> f)\<rparr>)
           (w'\<lparr>cacheFiles := (cacheFiles w')(p \<mapsto> f)\<rparr>)"
  using assms by (simp add: same_up_to_corruption_def)

lemma sim_saveToCache:
  assumes "same_up_to_corruption w w'"
  shows "same_up_to_corruption (saveToCache e monthFile s w) (saveToCache e monthFile s w')"
  using sim_written [OF sim_tick [OF assms]] sim_fields [OF assms]
  by (simp add: saveToCache_def Date_now_def Let_def)

lemma sim_digest_write:
  assumes "same_up_to_corruption w w'"
  shows "sim_out
     (let (now, w3) = Date_now e w;
          cacheData = \<lparr>cd_timestamp = Some now, cd_monthFile = monthFile, cd_summary = None,
                       cd_oneSentenceSummary = Some s, cd_model = ''gpt-5-mini''\<rparr>
      in (s, w3\<lparr>cacheFiles := (cacheFiles w3)(p \<mapsto> Parsed cacheData)\<rparr>))
     (let (now, w3) = Date_now e w';
          cacheData = \<lparr>cd_timestamp = Some now, cd_monthFile = monthFile, cd_summary = None,
                       cd_oneSentenceSummary = Some s, cd_model = ''gpt-5-mini''\<rparr>
      in (s, w3\<lparr>cacheFiles := (cacheFiles w3)(p \<mapsto> Parsed cacheData)\<rparr>))"
  using sim_written [OF sim_tick [OF assms]] sim_fields [OF assms]
  by (simp add: sim_out_def Date_now_def Let_def)

lemma sim_generateOneSentenceSummary:
  assumes "same_up_to_corruption w w'"
  shows "sim_out (generateOneSentenceSummary e monthFile fullSummary w)
           (generateOneSentenceSummary e monthFile fullSummary w')"
  unfolding generateOneSentenceSummary_def
  apply (rule sim_out_case_prod)
   apply (rule sim_cachedOneSentence [OF assms])
  apply (rule sim_out_case_option)
   apply (rule sim_out_case_prod)
    apply (erule sim_create)
   apply (rule sim_out_case_sum)
    apply (erule sim_out_pair)
   apply (rule sim_out_case_sum)
    apply (erule sim_out_pair)
   apply (erule sim_digest_write)
  apply (erule sim_out_pair)
  done


lemma sim_out_case_pair:
  assumes "\<And>a b. sim_out (f a b) (g a b)"
  shows "sim_out (case p of (a, b) \<Rightarrow> f a b) (case p of (a, b) \<Rightarrow> g a b)"
  using assms by (cases p) simp

lemma sim_finishSummary:
  assumes "same_up_to_corruption w w'"
  shows "sim_out (finishSummary e monthFile monthName formattedSummary w)
           (finishSummary e monthFile monthName formattedSummary w')"
  unfolding finishSummary_def Let_def
  apply (rule sim_out_case_prod)
   apply (rule sim_generateOneSentenceSummary [OF assms])
  apply (rule sim_out_pair)
  apply (erule sim_saveToCache)
  done

lemma sim_combineFourSummaries:
  assumes "same_up_to_corruption w w'"
  shows "sim_out (combineFourSummaries e summaries monthName w)
           (combineFourSummaries e summaries monthName w')"
  unfolding combineFourSummaries_def
  apply (rule sim_out_case_prod)
   apply (rule sim_create [OF assms])
  apply (rule sim_out_case_sum)
   apply (erule sim_out_pair)
  apply (rule sim_out_case_sum)
   apply (erule sim_out_pair)
  apply (erule sim_out_pair)
  done

lemma sim_wholeAttempt:
  assumes "same_up_to_corruption w w'"
  shows "sim_out (wholeAttempt e monthFile monthName content w)
           (wholeAttempt e monthFile monthName content w')"
  unfolding wholeAttempt_def Let_def
  apply (rule sim_out_case_prod)
   apply (rule sim_createSummary [OF assms])
  apply (rule sim_out_case_sum)
   apply (erule sim_out_pair)
  apply (rule sim_out_case_sum)
   apply (erule sim_out_pair)
  apply (rule sim_out_if)
   apply (rule sim_out_pair)
   apply (erule sim_saveToCache)
  apply (rule sim_out_case_prod)
   apply (erule sim_finishSummary)
  apply (erule sim_out_pair)
  done

lemma sim_twoPartAttempt:
  assumes "same_up_to_corruption w w'"
  shows "sim_out (twoPartAttempt e monthFile monthName content w)
           (twoPartAttempt e monthFile monthName content w')"
  unfolding twoPartAttempt_def Let_def
  apply (rule sim_out_case_pair)
  apply (rule sim_out_case_prod)
   apply (rule sim_createSummary [OF assms])
  apply (rule sim_out_case_sum)
   apply (erule sim_out_pair)
  apply (rule sim_out_case_prod)
   apply (erule sim_createSummary)
  apply (rule sim_out_case_sum)
   apply (erule sim_out_pair)
  apply (rule sim_out_case_sum)
   apply (erule sim_out_pair)
  apply (rule sim_out_case_sum)
   apply (erule sim_out_pair)
  apply (rule sim_out_case_prod)
   apply (erule sim_finishSummary)
  apply (erule sim_out_pair)
  done

lemma sim_summarizeQuarters:
  assumes "same_up_to_corruption w w'"
  shows "sim_out (summarizeQuarters e monthName qs acc w)
           (summarizeQuarters e monthName qs acc w')"
  using assms
proof (induction qs arbitrary: acc w w')
  case Nil
  then show ?case by (simp add: sim_out_pair)
next
  case (Cons q qs)
  obtain quarterName quarter where q: "q = (quarterName, quarter)"
    by (cases q)
  show ?case
    unfolding q summarizeQuarters.simps
    apply (rule sim_out_case_prod)
     apply (rule sim_createSummary [OF Cons.prems])
    apply (rule sim_out_case_sum)
     apply (erule sim_out_pair)
    apply (rule sim_out_case_sum)
     apply (erule sim_out_pair)
    apply (erule Cons.IH)
    done
qed

lemma sim_fourPartAttempt:
  assumes "same_up_to_corruption w w'"
  shows "sim_out (fourPartAttempt e monthFile monthName content w)
           (fourPartAttempt e monthFile monthName content w')"
  unfolding fourPartAttempt_def Let_def
  apply (rule sim_out_case_prod)
   apply (rule sim_summarizeQuarters [OF assms])
  apply (rule sim_out_case_sum)
   apply (erule sim_out_pair)
  apply (rule sim_out_case_prod)
   apply (erule sim_combineFourSummaries)
  apply (rule sim_out_case_prod)
   apply (erule sim_finishSummary)
  apply (erule sim_out_pair)
  done

lemma sim_generateMonthSummary:
  assumes "same_up_to_corruption w w'"
  shows "sim_out (generateMonthSummary e monthFile outputDir w)
           (generateMonthSummary e monthFile outputDir w')"
  unfolding generateMonthSummary_def Let_def
  apply (rule sim_out_case_option)
   apply (rule sim_out_pair [OF assms])
  apply (rule sim_out_case_prod)
   apply (rule sim_getCachedSummary [OF assms])
  apply (rule sim_out_case_option)
   apply (rule sim_out_case_prod)
    apply (erule sim_wholeAttempt)
   apply (rule sim_out_case_sum)
    apply (rule sim_out_if)
     apply (rule sim_out_case_prod)
      apply (erule sim_twoPartAttempt)
     apply (rule sim_out_case_sum)
      apply (rule sim_out_if)
       apply (rule sim_out_case_prod)
        apply (erule sim_fourPartAttempt)
       apply (rule sim_out_case_sum)
        apply (erule sim_out_pair)
       apply (erule sim_out_pair)
      apply (erule sim_out_pair)
     apply (erule sim_out_pair)
    apply (erule sim_out_pair)
   apply (erule sim_out_pair)
  apply (rule sim_out_case_prod)
   apply (erule sim_generateOneSentenceSummary)
  apply (erule sim_out_pair)
  done

text \<open>
  C8. When the month's cache file does not parse, \<open>getCachedSummary\<close> returns null
  (and changes nothing), and \<open>generateMonthSummary\<close> proceeds exactly as it does when
  the file is missing: the same returned value, the same requests and clock reads, and
  the same cache files afterwards up to corrupted files.
\<close>

theorem corrupted_cache_is_absent:
  assumes "cacheFiles w (getCacheFilePath e monthFile) = Some Corrupted"
  shows "getCachedSummary e monthFile w = (None, w) \<and>
         fst (generateMonthSummary e monthFile outputDir w) =
           fst (generateMonthSummary e monthFile outputDir
                  (w\<lparr>cacheFiles := (cacheFiles w)(getCacheFilePath e monthFile := None)\<rparr>)) \<and>
         same_up_to_corruption (snd (generateMonthSummary e monthFile outputDir w))
           (snd (generateMonthSummary e monthFile outputDir
                  (w\<lparr>cacheFiles := (cacheFiles w)(getCacheFilePath e monthFile := None)\<rparr>)))"
proof -
  let ?w' = "w\<lparr>cacheFiles := (cacheFiles w)(getCacheFilePath e monthFile := None)\<rparr>"
  have null: "getCachedSummary e monthFile w = (None, w)"
    using assms by (simp add: getCachedSummary_def)
  have "same_up_to_corruption w ?w'"
    using assms by (simp add: same_up_to_corruption_def readable_def)
  from sim_generateMonthSummary [OF this, of e monthFile outputDir] null
  show ?thesis
    by (simp add: sim_out_def)
qed

text \<open>
  The cache file of the month is corrupted; the run summarizes the document afresh, as
  the run without the file does, and replaces the corrupted file.
\<close>

theorem corrupted_cache_is_absent_witness:
  "getCachedSummary
     (script_env [Content (Some ''A fine summary of February.''), Content (Some ''One sentence.'')])
     ''2021-02.md'' (cache_world [(''/app/cache/2021-02.json'', Corrupted)] 0) =
     (None, cache_world [(''/app/cache/2021-02.json'', Corrupted)] 0) \<and>
   fst (generateMonthSummary
     (script_env [Content (Some ''A fine summary of February.''), Content (Some ''One sentence.'')])
     ''2021-02.md'' ''/app/output'' (cache_world [(''/app/cache/2021-02.json'', Corrupted)] 0)) =
     Inr ''## February 2021\<newline>\<newline>**tl;dr:** One sentence.\<newline>\<newline>A fine summary of February.'' \<and>
   fst (generateMonthSummary
     (script_env [Content (Some ''A fine summary of February.''), Content (Some ''One sentence.'')])
     ''2021-02.md'' ''/app/output''
     ((cache_world [(''/app/cache/2021-02.json'', Corrupted)] 0)
        \<lparr>cacheFiles := (cacheFiles (cache_world [(''/app/cache/2021-02.json'', Corrupted)] 0))
           (''/app/cache/2021-02.json'' := None)\<rparr>)) =
     Inr ''## February 2021\<newline>\<newline>**tl;dr:** One sentence.\<newline>\<newline>A fine summary of February.''"
proof -
  let ?e = "script_env [Content (Some ''A fine summary of February.''), Content (Some ''One sentence.'')]"
  let ?w = "cache_world [(''/app/cache/2021-02.json'', Corrupted)] 0"
  have corrupted: "cacheFiles ?w (getCacheFilePath ?e ''2021-02.md'') = Some Corrupted"
    unfolding script_env_paths by (simp add: cache_world_def)
  have result: "fst (generateMonthSummary ?e ''2021-02.md'' ''/app/output'' ?w) =
     Inr ''## February 2021\<newline>\<newline>**tl;dr:** One sentence.\<newline>\<newline>A fine summary of February.''"
    by code_simp
  from corrupted_cache_is_absent [OF corrupted, of "''/app/output''"] result
  show ?thesis
    unfolding script_env_paths by simp
qed


section \<open>The output contract of generateMonthSummary\<close>

lemma get_substitution_plain:
  "CHR 0x24 \<notin> set a \<Longrightarrow>
   get_substitution m p q (a @ b) = a @ get_substitution m p q b"
proof (induction a)
  case Nil
  then show ?case by simp
next
  case (Cons x a)
  then have x: "x \<noteq> CHR 0x24" and a: "CHR 0x24 \<notin> set a" by auto
  show ?case
  proof (cases "a @ b")
    case Nil
    then show ?thesis by simp
  next
    case (Cons d r)
    have "get_substitution m p q ((x # a) @ b) = x # get_substitution m p q (a @ b)"
      using x by (simp add: Cons)
    with Cons.IH [OF a] show ?thesis by simp
  qed
qed

lemma startsWith_append: "startsWith (p @ s) p"
  by (simp add: startsWith_def)

lemma startsWith_split: "startsWith s p \<Longrightarrow> s = p @ drop (length p) s"
  by (metis append_take_drop_id startsWith_def)

lemma startsWith_prefix:
  assumes "startsWith t (p @ q)"
  shows "startsWith t p"
proof -
  from assms have "t = (p @ q) @ drop (length (p @ q)) t" by (rule startsWith_split)
  then have "t = p @ (q @ drop (length (p @ q)) t)" by simp
  then have "take (length p) t = p" by (metis append_eq_conv_conj)
  then show ?thesis by (simp add: startsWith_def)
qed

lemma withTldr_starts:
  assumes "CHR 0x24 \<notin> set monthName" and "startsWith s (heading monthName)"
  shows "startsWith (withTldr monthName one s) (heading monthName @ ''**tl;dr:** '')"
proof -
  define h where "h = heading monthName"
  define tl where "tl = ''**tl;dr:** ''"
  define body where "body = drop (length h) s"
  from assms(2) have s: "s = h @ body"
    unfolding h_def body_def by (rule startsWith_split)
  have plain: "CHR 0x24 \<notin> set (h @ tl)"
    using assms(1) by (simp add: h_def tl_def heading_def nl2_def)
  have "withTldr monthName one (h @ body) =
      get_substitution h [] body (h @ tl @ one @ nl2) @ body"
    unfolding h_def tl_def by (rule withTldr_heading)
  moreover have "get_substitution h [] body ((h @ tl) @ (one @ nl2)) =
      (h @ tl) @ get_substitution h [] body (one @ nl2)"
    by (rule get_substitution_plain [OF plain])
  ultimately have "withTldr monthName one s =
      (h @ tl) @ (get_substitution h [] body (one @ nl2) @ body)"
    using s by simp
  then have "startsWith (withTldr monthName one s) (h @ tl)"
    by (simp only: startsWith_append)
  then show ?thesis
    by (simp only: h_def tl_def)
qed

lemma output_contract_heading:
  assumes "output_contract monthName t"
  shows "t \<noteq> [] \<and> startsWith t (''## '' @ monthName @ nl)"
proof -
  have h: "heading monthName = (''## '' @ monthName @ nl) @ nl"
    by (simp add: heading_def nl2_def nl_def)
  have "startsWith t (heading monthName)"
    using assms unfolding output_contract_def placeholderText_def
    by (auto intro: startsWith_prefix startsWith_append)
  then have "startsWith t (''## '' @ monthName @ nl)"
    unfolding h by (rule startsWith_prefix)
  then have "t = (''## '' @ monthName @ nl) @ drop (length (''## '' @ monthName @ nl)) t"
    by (rule startsWith_split)
  then have "t \<noteq> []"
    by (metis list.distinct(1) append_Cons)
  with \<open>startsWith t (''## '' @ monthName @ nl)\<close> show ?thesis by simp
qed


lemma keeps_pair:
  "P r \<Longrightarrow> cache_wellformed e monthFile v \<Longrightarrow> keeps e monthFile P (r, v)"
  by (simp add: keeps_def)

lemma keeps_any:
  "cache_wellformed e monthFile v \<Longrightarrow> keeps e monthFile (\<lambda>r. True) (r, v)"
  by (simp add: keeps_def)

lemma keeps_case_prod:
  assumes "keeps e monthFile Q x"
      and "\<And>r v. Q r \<Longrightarrow> cache_wellformed e monthFile v \<Longrightarrow> keeps e monthFile P (f r v)"
  shows "keeps e monthFile P (case x of (r, v) \<Rightarrow> f r v)"
  using assms by (cases x) (simp add: keeps_def)

lemma keeps_case_sum:
  assumes "\<And>a. keeps e monthFile P (f a)" and "\<And>b. keeps e monthFile P (g b)"
  shows "keeps e monthFile P (case s of Inl a \<Rightarrow> f a | Inr b \<Rightarrow> g b)"
  using assms by (cases s) simp_all

lemma keeps_case_option:
  assumes "s = None \<Longrightarrow> keeps e monthFile P f" and "\<And>b. s = Some b \<Longrightarrow> keeps e monthFile P (g b)"
  shows "keeps e monthFile P (case s of None \<Rightarrow> f | Some b \<Rightarrow> g b)"
  using assms by (cases s) simp_all

lemma keeps_if:
  assumes "keeps e monthFile P a" and "keeps e monthFile P b"
  shows "keeps e monthFile P (if c then a else b)"
  using assms by simp

lemma keeps_case_pair:
  assumes "\<And>a b. keeps e monthFile P (f a b)"
  shows "keeps e monthFile P (case p of (a, b) \<Rightarrow> f a b)"
  using assms by (cases p) simp

lemma wf_ticks:
  "cache_wellformed e monthFile w \<Longrightarrow> cache_wellformed e monthFile (w\<lparr>ticks := n\<rparr>)"
  by (simp add: cache_wellformed_def)

lemma wf_calls:
  "cache_wellformed e monthFile w \<Longrightarrow> cache_wellformed e monthFile (w\<lparr>calls := c\<rparr>)"
  by (simp add: cache_wellformed_def)

lemma wf_digest_written:
  assumes "cache_wellformed e monthFile w" and "cd_summary d = None"
  shows "cache_wellformed e monthFile (w\<lparr>cacheFiles := (cacheFiles w)(p \<mapsto> Parsed d)\<rparr>)"
  using assms by (simp add: cache_wellformed_def readable_def)

lemma wf_summary_written:
  assumes "startsWith s (heading (monthNameOf e monthFile))" and "cd_summary d = Some s"
  shows "cache_wellformed e monthFile
           (w\<lparr>cacheFiles := (cacheFiles w)(getCacheFilePath e monthFile \<mapsto> Parsed d)\<rparr>)"
  using assms by (simp add: cache_wellformed_def readable_def)

lemma keeps_Date_now:
  "cache_wellformed e monthFile w \<Longrightarrow> keeps e monthFile (\<lambda>now. True) (Date_now e w)"
  by (simp add: keeps_def Date_now_def wf_ticks)

lemma keeps_getCachedSummary:
  assumes "cache_wellformed e monthFile w"
  shows "keeps e monthFile
           (\<lambda>c. case c of None \<Rightarrow> True
                 | Some s \<Rightarrow> startsWith s (heading (monthNameOf e monthFile)))
           (getCachedSummary e monthFile w)"
proof (cases "readable (cacheFiles w (getCacheFilePath e monthFile))")
  case None
  with assms show ?thesis
    by (simp add: getCachedSummary_readable keeps_def)
next
  case (Some d)
  with assms have "case cd_summary d of None \<Rightarrow> True
      | Some s \<Rightarrow> startsWith s (heading (monthNameOf e monthFile))"
    by (simp add: cache_wellformed_def)
  with assms Some show ?thesis
    by (simp add: getCachedSummary_readable keeps_def Date_now_def wf_ticks split: option.splits)
qed

lemma keeps_cachedOneSentence:
  assumes "cache_wellformed e monthFile w"
  shows "keeps e monthFile (\<lambda>c. True) (cachedOneSentence e monthFile w)"
  using assms
  by (simp add: cachedOneSentence_readable keeps_def Date_now_def wf_ticks split: option.splits)

lemma keeps_create:
  assumes "cache_wellformed e monthFile w"
  shows "keeps e monthFile (\<lambda>r. True) (create e req w)"
  using assms
  by (simp add: create_def keeps_def Let_def wf_calls split: completion.splits)

lemma keeps_createSummary:
  assumes "cache_wellformed e monthFile w"
  shows "keeps e monthFile (\<lambda>r. True) (createSummary e userContent w)"
  unfolding createSummary_def
  apply (rule keeps_case_sum)
   apply (rule keeps_any [OF assms])
  apply (rule keeps_create [OF assms])
  done

lemma keeps_generateOneSentenceSummary:
  assumes "cache_wellformed e monthFile w"
  shows "keeps e monthFile (\<lambda>r. True) (generateOneSentenceSummary e monthFile fullSummary w)"
  unfolding generateOneSentenceSummary_def Let_def
  apply (rule keeps_case_prod)
   apply (rule keeps_cachedOneSentence [OF assms])
  apply (rule keeps_case_option)
   apply (rule keeps_case_prod)
    apply (erule keeps_create)
   apply (rule keeps_case_sum)
    apply (erule keeps_any)
   apply (rule keeps_case_sum)
    apply (erule keeps_any)
   apply (rule keeps_case_prod)
    apply (erule keeps_Date_now)
   apply (rule keeps_any)
   apply (erule wf_digest_written)
   apply simp
  apply (erule keeps_any)
  done

lemma wf_saveToCache:
  assumes "startsWith s (heading (monthNameOf e monthFile))"
  shows "cache_wellformed e monthFile (saveToCache e monthFile s w)"
  unfolding saveToCache_def Let_def Date_now_def split_def fst_conv snd_conv
  by (rule wf_summary_written [OF assms]) simp

lemma keeps_finishSummary:
  assumes "CHR 0x24 \<notin> set (monthNameOf e monthFile)"
      and "cache_wellformed e monthFile w"
  shows "keeps e monthFile (\<lambda>t. output_contract (monthNameOf e monthFile) t)
           (finishSummary e monthFile (monthNameOf e monthFile)
              (heading (monthNameOf e monthFile) @ body) w)"
proof -
  have "output_contract (monthNameOf e monthFile)
      (withTldr (monthNameOf e monthFile) one (heading (monthNameOf e monthFile) @ body))" for one
    unfolding output_contract_def
    using withTldr_starts [OF assms(1) startsWith_append] by blast
  moreover have "cache_wellformed e monthFile
      (saveToCache e monthFile (heading (monthNameOf e monthFile) @ body) v)" for v
    by (rule wf_saveToCache) (rule startsWith_append)
  ultimately show ?thesis
    by (simp add: keeps_def finishSummary_result finishSummary_world)
qed

lemma keeps_combineFourSummaries:
  assumes "cache_wellformed e monthFile w"
  shows "keeps e monthFile (\<lambda>r. True) (combineFourSummaries e summaries monthName w)"
  unfolding combineFourSummaries_def
  apply (rule keeps_case_prod)
   apply (rule keeps_create [OF assms])
  apply (rule keeps_case_sum)
   apply (erule keeps_any)
  apply (rule keeps_case_sum)
   apply (erule keeps_any)
  apply (erule keeps_any)
  done

lemma keeps_summarizeQuarters:
  assumes "cache_wellformed e monthFile w"
  shows "keeps e monthFile (\<lambda>r. True) (summarizeQuarters e monthName qs acc w)"
  using assms
proof (induction qs arbitrary: acc w)
  case Nil
  then show ?case by (simp add: keeps_any)
next
  case (Cons q qs)
  obtain quarterName quarter where q: "q = (quarterName, quarter)"
    by (cases q)
  show ?case
    unfolding q summarizeQuarters.simps
    apply (rule keeps_case_prod)
     apply (rule keeps_createSummary [OF Cons.prems])
    apply (rule keeps_case_sum)
     apply (erule keeps_any)
    apply (rule keeps_case_sum)
     apply (erule keeps_any)
    apply (erule Cons.IH)
    done
qed


lemma keeps_obtain:
  assumes "keeps e monthFile P x"
  obtains r v where "x = (r, v)" and "P r" and "cache_wellformed e monthFile v"
  using assms by (cases x) (simp add: keeps_def)

lemma block_Inl: "block_or_throws monthName (Inl err)"
  by (simp add: block_or_throws_def)

lemma block_Inr: "output_contract monthName t \<Longrightarrow> block_or_throws monthName (Inr t)"
  by (simp add: block_or_throws_def)

lemma keeps_thrown:
  "cache_wellformed e monthFile v \<Longrightarrow>
   keeps e monthFile (block_or_throws monthName) (Inl err, v)"
  by (simp add: keeps_def block_Inl)

lemma keeps_block:
  "output_contract monthName t \<Longrightarrow> cache_wellformed e monthFile v \<Longrightarrow>
   keeps e monthFile (block_or_throws monthName) (Inr t, v)"
  by (simp add: keeps_def block_Inr)

lemma placeholder_contract: "output_contract monthName (placeholderText monthName)"
  by (simp add: output_contract_def)

lemma placeholder_starts: "startsWith (placeholderText monthName) (heading monthName)"
  unfolding placeholderText_def by (rule startsWith_append)

lemma errorBlock_contract: "output_contract monthName (errorBlock monthName err)"
proof -
  have "errorBlock monthName err =
      (heading monthName @ ''Error generating summary: '') @ message err"
    by (simp add: errorBlock_def)
  then have "startsWith (errorBlock monthName err)
      (heading monthName @ ''Error generating summary: '')"
    by (simp only: startsWith_append)
  then show ?thesis
    by (simp add: output_contract_def)
qed

lemma keeps_finish_block:
  assumes "CHR 0x24 \<notin> set (monthNameOf e monthFile)"
      and "cache_wellformed e monthFile w"
  shows "keeps e monthFile (block_or_throws (monthNameOf e monthFile))
           (case finishSummary e monthFile (monthNameOf e monthFile)
                   (heading (monthNameOf e monthFile) @ body) w of
              (summaryWithTldr, w2) \<Rightarrow> (Inr summaryWithTldr, w2))"
  apply (rule keeps_case_prod)
   apply (rule keeps_finishSummary [OF assms])
  apply (erule keeps_block)
  apply assumption
  done

lemma keeps_wholeAttempt:
  assumes "CHR 0x24 \<notin> set (monthNameOf e monthFile)"
      and "cache_wellformed e monthFile w"
  shows "keeps e monthFile (block_or_throws (monthNameOf e monthFile))
           (wholeAttempt e monthFile (monthNameOf e monthFile) content w)"
  unfolding wholeAttempt_def Let_def
  apply (rule keeps_case_prod)
   apply (rule keeps_createSummary [OF assms(2)])
  apply (rule keeps_case_sum)
   apply (erule keeps_thrown)
  apply (rule keeps_case_sum)
   apply (erule keeps_thrown)
  apply (rule keeps_if)
   apply (rule keeps_block [OF placeholder_contract])
   apply (rule wf_saveToCache [OF placeholder_starts])
  apply (erule keeps_finish_block [OF assms(1)])
  done

lemma keeps_twoPartAttempt:
  assumes "CHR 0x24 \<notin> set (monthNameOf e monthFile)"
      and "cache_wellformed e monthFile w"
  shows "keeps e monthFile (block_or_throws (monthNameOf e monthFile))
           (twoPartAttempt e monthFile (monthNameOf e monthFile) content w)"
  unfolding twoPartAttempt_def Let_def
  apply (rule keeps_case_pair)
  apply (rule keeps_case_prod)
   apply (rule keeps_createSummary [OF assms(2)])
  apply (rule keeps_case_sum)
   apply (erule keeps_thrown)
  apply (rule keeps_case_prod)
   apply (erule keeps_createSummary)
  apply (rule keeps_case_sum)
   apply (erule keeps_thrown)
  apply (rule keeps_case_sum)
   apply (erule keeps_thrown)
  apply (rule keeps_case_sum)
   apply (erule keeps_thrown)
  apply (erule keeps_finish_block [OF assms(1)])
  done

lemma keeps_fourPartAttempt:
  assumes "CHR 0x24 \<notin> set (monthNameOf e monthFile)"
      and "cache_wellformed e monthFile w"
  shows "keeps e monthFile (block_or_throws (monthNameOf e monthFile))
           (fourPartAttempt e monthFile (monthNameOf e monthFile) content w)"
  unfolding fourPartAttempt_def Let_def
  apply (rule keeps_case_prod)
   apply (rule keeps_summarizeQuarters [OF assms(2)])
  apply (rule keeps_case_sum)
   apply (erule keeps_thrown)
  apply (rule keeps_case_prod)
   apply (erule keeps_combineFourSummaries)
  apply (erule keeps_finish_block [OF assms(1)])
  done

lemma returns_error: "returns_block monthName (Inr (errorBlock monthName err))"
  by (simp add: returns_block_def errorBlock_contract)

lemma block_returns:
  "block_or_throws monthName (Inr t) \<Longrightarrow> returns_block monthName (Inr t)"
  by (simp add: block_or_throws_def returns_block_def)

lemma keeps_generateMonthSummary:
  assumes doc: "textFiles e (path_join outputDir monthFile) = Some content"
      and plain: "CHR 0x24 \<notin> set (monthNameOf e monthFile)"
      and wf: "cache_wellformed e monthFile w"
  shows "keeps e monthFile (returns_block (monthNameOf e monthFile))
           (generateMonthSummary e monthFile outputDir w)"
proof -
  let ?mn = "monthNameOf e monthFile"
  from keeps_getCachedSummary [OF wf] obtain c w1 where
    gc: "getCachedSummary e monthFile w = (c, w1)" and
    c: "case c of None \<Rightarrow> True | Some s \<Rightarrow> startsWith s (heading ?mn)" and
    wf1: "cache_wellformed e monthFile w1"
    by (rule keeps_obtain)
  show ?thesis
  proof (cases c)
    case (Some cachedSummary)
    with c have starts: "startsWith cachedSummary (heading ?mn)" by simp
    from keeps_generateOneSentenceSummary [OF wf1, of cachedSummary] obtain one w2 where
      g: "generateOneSentenceSummary e monthFile cachedSummary w1 = (one, w2)" and
      wf2: "cache_wellformed e monthFile w2"
      by (rule keeps_obtain)
    have "output_contract ?mn (withTldr ?mn one cachedSummary)"
      unfolding output_contract_def using withTldr_starts [OF plain starts] by blast
    with wf2 show ?thesis
      by (simp add: generateMonthSummary_def Let_def doc gc Some g keeps_def returns_block_def)
  next
    case None
    from keeps_wholeAttempt [OF plain wf1, of content] obtain r2 w2 where
      wa: "wholeAttempt e monthFile ?mn content w1 = (r2, w2)" and
      b2: "block_or_throws ?mn r2" and wf2: "cache_wellformed e monthFile w2"
      by (rule keeps_obtain)
    from keeps_twoPartAttempt [OF plain wf2, of content] obtain r3 w3 where
      ta: "twoPartAttempt e monthFile ?mn content w2 = (r3, w3)" and
      b3: "block_or_throws ?mn r3" and wf3: "cache_wellformed e monthFile w3"
      by (rule keeps_obtain)
    from keeps_fourPartAttempt [OF plain wf3, of content] obtain r4 w4 where
      fa: "fourPartAttempt e monthFile ?mn content w3 = (r4, w4)" and
      b4: "block_or_throws ?mn r4" and wf4: "cache_wellformed e monthFile w4"
      by (rule keeps_obtain)
    have run: "generateMonthSummary e monthFile outputDir w =
        (case r2 of
           Inr summaryText \<Rightarrow> (Inr summaryText, w2)
         | Inl err \<Rightarrow>
             if isTokenLimit (message err) then
               (case r3 of
                  Inr summaryText \<Rightarrow> (Inr summaryText, w3)
                | Inl splitError \<Rightarrow>
                    if isTokenLimit (message splitError) then
                      (case r4 of
                         Inr summaryText \<Rightarrow> (Inr summaryText, w4)
                       | Inl fourPartError \<Rightarrow> (Inr (errorBlock ?mn fourPartError), w4))
                    else (Inr (errorBlock ?mn splitError), w3))
             else (Inr (errorBlock ?mn err), w2))"
      by (simp add: generateMonthSummary_def Let_def doc gc None wa ta fa split: sum.splits)
    show ?thesis
      unfolding run
      using b2 b3 b4 wf2 wf3 wf4
      by (auto simp: keeps_def returns_error block_returns split: sum.splits)
  qed
qed

text \<open>
  C2. For every month file whose content file exists, whose cache entry is well-formed
  and whose month name has no dollar sign (the platform's month names have none),
  \<open>generateMonthSummary\<close> returns a text and propagates no exception: the text is
  non-empty, begins with the heading line of the month, and is the no-activity
  placeholder, an inline error message, or a summary with its tl;dr line. The cache
  entry is well-formed afterwards.
\<close>

theorem generateMonthSummary_output_contract:
  assumes "textFiles e (path_join outputDir monthFile) = Some content"
      and "cache_wellformed e monthFile w"
      and "CHR 0x24 \<notin> set (monthNameOf e monthFile)"
  shows "\<exists>t. fst (generateMonthSummary e monthFile outputDir w) = Inr t \<and>
             t \<noteq> [] \<and>
             startsWith t (''## '' @ monthNameOf e monthFile @ nl) \<and>
             output_contract (monthNameOf e monthFile) t \<and>
             cache_wellformed e monthFile (snd (generateMonthSummary e monthFile outputDir w))"
proof -
  from keeps_generateMonthSummary [OF assms(1,3,2)] obtain r v where
    run: "generateMonthSummary e monthFile outputDir w = (r, v)" and
    block: "returns_block (monthNameOf e monthFile) r" and
    wf: "cache_wellformed e monthFile v"
    by (rule keeps_obtain)
  from block obtain t where r: "r = Inr t" and
    contract: "output_contract (monthNameOf e monthFile) t"
    by (cases r) (simp_all add: returns_block_def)
  from output_contract_heading [OF contract] r contract wf show ?thesis
    by (simp add: run)
qed

text \<open>
  A fresh run on an empty cache, and the run after it, which finds the summary in the
  cache and the digest in the digest cache: both return the same headed block.
\<close>

theorem generateMonthSummary_output_contract_witness:
  "cache_wellformed
     (script_env [Content (Some ''A fine summary of February.''), Content (Some ''One sentence.'')])
     ''2021-02.md'' empty_world \<and>
   fst (generateMonthSummary
     (script_env [Content (Some ''A fine summary of February.''), Content (Some ''One sentence.'')])
     ''2021-02.md'' ''/app/output'' empty_world) =
     Inr ''## February 2021\<newline>\<newline>**tl;dr:** One sentence.\<newline>\<newline>A fine summary of February.'' \<and>
   startsWith ''## February 2021\<newline>\<newline>**tl;dr:** One sentence.\<newline>\<newline>A fine summary of February.''
     ''## February 2021\<newline>'' \<and>
   cache_wellformed
     (script_env [Content (Some ''A fine summary of February.''), Content (Some ''One sentence.'')])
     ''2021-02.md''
     (snd (generateMonthSummary
        (script_env [Content (Some ''A fine summary of February.''), Content (Some ''One sentence.'')])
        ''2021-02.md'' ''/app/output'' empty_world)) \<and>
   fst (generateMonthSummary
     (script_env [Content (Some ''A fine summary of February.''), Content (Some ''One sentence.'')])
     ''2021-02.md'' ''/app/output''
     (snd (generateMonthSummary
        (script_env [Content (Some ''A fine summary of February.''), Content (Some ''One sentence.'')])
        ''2021-02.md'' ''/app/output'' empty_world))) =
     Inr ''## February 2021\<newline>\<newline>**tl;dr:** One sentence.\<newline>\<newline>A fine summary of February.''"
proof -
  let ?e = "script_env [Content (Some ''A fine summary of February.''), Content (Some ''One sentence.'')]"
  let ?t = "''## February 2021\<newline>\<newline>**tl;dr:** One sentence.\<newline>\<newline>A fine summary of February.''"
  let ?r1 = "generateMonthSummary ?e ''2021-02.md'' ''/app/output'' empty_world"
  have wf: "cache_wellformed ?e ''2021-02.md'' empty_world"
    by (simp add: cache_wellformed_def readable_def empty_world_fields)
  have plain: "CHR 0x24 \<notin> set (monthNameOf ?e ''2021-02.md'')"
    by (simp add: script_env_fields)
  have first: "fst ?r1 = Inr ?t"
    by code_simp
  have second: "fst (generateMonthSummary ?e ''2021-02.md'' ''/app/output'' (snd ?r1)) = Inr ?t"
    by code_simp
  from generateMonthSummary_output_contract [OF script_env_document wf plain]
  obtain t where "fst ?r1 = Inr t"
    and starts: "startsWith t (''## '' @ monthNameOf ?e ''2021-02.md'' @ nl)"
    and after: "cache_wellformed ?e ''2021-02.md'' (snd ?r1)"
    by blast
  with first have "t = ?t" by simp
  with starts have "startsWith ?t ''## February 2021\<newline>''"
    by (simp add: script_env_fields nl_def)
  with wf first second after show ?thesis
    by simp
qed


end
